theory Spec2Isabelle
  imports Complex_Main
begin

section \<open>Data model of \<open>behavioral_monitor.py\<close>\<close>

text \<open>
  The dataclasses of the source become datatypes whose constructor takes the fields in
  the order of the dataclass, so that the positional constructions of the source
  (\<open>TypingMetrics(0, 0, 0, 0, 0, 50, 0, 0, 0, 0)\<close>) read the same here. The selectors
  carry a prefix per class (\<open>ks_\<close>, \<open>md_\<close>, \<open>tm_\<close>, \<open>mm_\<close>), since two classes share the
  field name \<open>timestamp\<close> and since \<open>x\<close>, \<open>y\<close> and \<open>wpm\<close> are also local variables.

  Python floats are modelled as \<open>real\<close>: arithmetic is exact, rounding error, infinities
  and NaN are not modelled. The reading of the clock \<open>time.time()\<close> is a parameter of
  every function that takes one.
\<close>

datatype KeystrokeData = KeystrokeData
  (ks_timestamp: real) (ks_key_type: string) (ks_is_modifier: bool)
  (ks_press_duration: "real option")

datatype MouseData = MouseData
  (md_timestamp: real) (md_x: int) (md_y: int) (md_action: string)
  (md_button: "string option") (md_scroll_direction: "string option")

datatype TypingMetrics = TypingMetrics
  (tm_wpm: real) (tm_raw_wpm: real) (tm_accuracy_score: real)
  (tm_rhythm_consistency: real) (tm_fatigue_score: real) (tm_health_score: real)
  (tm_avg_keystroke_interval: real) (tm_keystroke_variance: real)
  (tm_pause_frequency: real) (tm_typing_bursts: nat)

datatype MouseMetrics = MouseMetrics
  (mm_total_distance: real) (mm_avg_speed: real) (mm_click_frequency: real)
  (mm_scroll_frequency: real) (mm_movement_smoothness: real) (mm_idle_periods: nat)
  (mm_active_time_percentage: real)

text \<open>The exceptions of the Python library that the modelled code can meet.\<close>

datatype error = Full | Empty | StatisticsError | ZeroDivisionError

subsection \<open>\<open>queue.Queue\<close> and \<open>collections.deque\<close>\<close>

text \<open>
  \<open>queue.Queue(maxsize=0)\<close>: a FIFO whose \<open>maxsize\<close> of zero (the default) means that the
  queue has no bound. \<open>put_nowait\<close> raises \<open>Full\<close> only when \<open>0 < maxsize \<le> qsize()\<close>.
\<close>

record 'a Queue =
  maxsize :: nat
  items :: "'a list"

definition Queue_new :: "'a Queue" where
  "Queue_new = \<lparr>maxsize = 0, items = []\<rparr>"

definition qsize :: "'a Queue \<Rightarrow> nat" where
  "qsize q = length (items q)"

definition queue_empty :: "'a Queue \<Rightarrow> bool" where
  "queue_empty q = (items q = [])"

definition queue_full :: "'a Queue \<Rightarrow> bool" where
  "queue_full q = (0 < maxsize q \<and> maxsize q \<le> qsize q)"

definition put_nowait :: "'a Queue \<Rightarrow> 'a \<Rightarrow> error + 'a Queue" where
  "put_nowait q v = (if queue_full q then Inl Full else Inr (q\<lparr>items := items q @ [v]\<rparr>))"

definition get_nowait :: "'a Queue \<Rightarrow> error + ('a \<times> 'a Queue)" where
  "get_nowait q = (case items q of [] \<Rightarrow> Inl Empty | v # vs \<Rightarrow> Inr (v, q\<lparr>items := vs\<rparr>))"

text \<open>
  \<open>deque(maxlen=n).append(v)\<close>: the element goes to the right end, and when the deque
  is longer than \<open>maxlen\<close> afterwards the elements at the left end are discarded.
\<close>

definition deque_append :: "nat \<Rightarrow> 'a list \<Rightarrow> 'a \<Rightarrow> 'a list" where
  "deque_append maxlen xs v = (let ys = xs @ [v] in drop (length ys - maxlen) ys)"

subsection \<open>Keys of \<open>pynput\<close>\<close>

text \<open>
  A key object of \<open>pynput\<close> is seen through the two observations the monitor makes of it:
  \<open>key_char\<close> is the attribute \<open>char\<close> (\<open>None\<close> when the object has no such attribute, as
  the members of the enumeration \<open>Key\<close>, or when it is \<open>None\<close>), and \<open>key_str\<close> is
  \<open>str(key)\<close>, for instance \<open>'a'\<close> with its quotes for a character key and \<open>Key.shift\<close>
  for a named key.
\<close>

record key =
  key_char :: "string option"
  key_str :: string

text \<open>
  \<open>str.isalpha\<close>, \<open>str.isdigit\<close>, \<open>str.isspace\<close> and \<open>str.lower\<close> on ASCII text. Code
  points beyond ASCII, for which Python consults the Unicode tables, are not modelled:
  they are in none of the three classes here.
\<close>

definition char_isalpha :: "char \<Rightarrow> bool" where
  "char_isalpha c = (let n = (of_char c :: nat) in (65 \<le> n \<and> n \<le> 90) \<or> (97 \<le> n \<and> n \<le> 122))"

definition char_isdigit :: "char \<Rightarrow> bool" where
  "char_isdigit c = (let n = (of_char c :: nat) in 48 \<le> n \<and> n \<le> 57)"

definition char_isspace :: "char \<Rightarrow> bool" where
  "char_isspace c = (let n = (of_char c :: nat) in (9 \<le> n \<and> n \<le> 13) \<or> (28 \<le> n \<and> n \<le> 32))"

definition isalpha :: "string \<Rightarrow> bool" where
  "isalpha cs = (cs \<noteq> [] \<and> list_all char_isalpha cs)"

definition isdigit :: "string \<Rightarrow> bool" where
  "isdigit cs = (cs \<noteq> [] \<and> list_all char_isdigit cs)"

definition isspace :: "string \<Rightarrow> bool" where
  "isspace cs = (cs \<noteq> [] \<and> list_all char_isspace cs)"

definition char_lower :: "char \<Rightarrow> char" where
  "char_lower c = (let n = (of_char c :: nat) in if 65 \<le> n \<and> n \<le> 90 then char_of (n + 32) else c)"

definition lower :: "string \<Rightarrow> string" where
  "lower cs = map char_lower cs"

text \<open>\<open>sub in s\<close> on strings: \<open>sub\<close> occurs in \<open>s\<close> as a contiguous block.\<close>

fun contains :: "string \<Rightarrow> string \<Rightarrow> bool" where
  "contains [] sub = (sub = [])"
| "contains (c # cs) sub = (take (length sub) (c # cs) = sub \<or> contains cs sub)"

definition modifiers :: "string list" where
  "modifiers = [''ctrl'', ''alt'', ''shift'', ''cmd'', ''win'']"

definition classify_key :: "key \<Rightarrow> string \<times> bool" where
  "classify_key k =
     (case (case key_char k of None \<Rightarrow> None | Some c \<Rightarrow> if c = [] then None else Some c) of
        Some c \<Rightarrow>
          if isalpha c then (''letter'', False)
          else if isdigit c then (''number'', False)
          else if isspace c then (''space'', False)
          else (''special'', False)
      | None \<Rightarrow>
          (let key_name = lower (key_str k);
               is_modifier = list_ex (\<lambda>m. contains key_name m) modifiers
           in (if is_modifier then ''modifier'' else ''special'', is_modifier)))"

section \<open>The monitor\<close>

text \<open>
  The fields of \<open>BehavioralMonitor\<close> that the event handlers, the analysis loop and the
  queries read or write. The dictionary \<open>current_metrics\<close> has a fixed set of keys and
  is flattened into the fields \<open>cm_typing\<close> to \<open>cm_total_mouse_events\<close>. The thread and
  listener handles are left out. \<open>key_press_times\<close> and \<open>app_usage\<close> are dictionaries
  keyed by strings.
\<close>

record monitor =
  analysis_window :: int
  inactivity_threshold :: int
  data_retention :: int
  keystroke_data :: "KeystrokeData list"
  mouse_data :: "MouseData list"
  key_press_times :: "string \<rightharpoonup> real"
  cm_typing :: TypingMetrics
  cm_mouse :: MouseMetrics
  cm_last_activity :: real
  cm_session_start :: real
  cm_total_keystrokes :: nat
  cm_total_mouse_events :: nat
  current_app :: "string option"
  app_usage :: "string \<rightharpoonup> real"
  app_start_time :: real
  running :: bool
  keystroke_queue :: "KeystrokeData Queue"
  mouse_queue :: "MouseData Queue"

text \<open>\<open>deque(maxlen=10000)\<close> of \<open>__init__\<close>.\<close>

definition data_maxlen :: nat where
  "data_maxlen = 10000"

text \<open>
  \<open>__init__\<close>: the clock is read three times (\<open>last_activity\<close>, \<open>session_start\<close>,
  \<open>app_start_time\<close>).
\<close>

definition init :: "int \<Rightarrow> int \<Rightarrow> int \<Rightarrow> real \<Rightarrow> real \<Rightarrow> real \<Rightarrow> monitor" where
  "init window threshold retention t1 t2 t3 =
     \<lparr>analysis_window = window,
      inactivity_threshold = threshold,
      data_retention = retention,
      keystroke_data = [],
      mouse_data = [],
      key_press_times = Map.empty,
      cm_typing = TypingMetrics 0 0 0 0 0 0 0 0 0 0,
      cm_mouse = MouseMetrics 0 0 0 0 0 0 0,
      cm_last_activity = t1,
      cm_session_start = t2,
      cm_total_keystrokes = 0,
      cm_total_mouse_events = 0,
      current_app = None,
      app_usage = Map.empty,
      app_start_time = t3,
      running = False,
      keystroke_queue = Queue_new,
      mouse_queue = Queue_new\<rparr>"

text \<open>
  \<open>start_monitoring\<close> and \<open>stop_monitoring\<close>, as far as the state goes: they set the flag
  \<open>running\<close> (and start or stop the listeners and threads, which are the callers of the
  functions below).
\<close>

definition start_monitoring :: "monitor \<Rightarrow> monitor" where
  "start_monitoring s = (if running s then s else s\<lparr>running := True\<rparr>)"

definition stop_monitoring :: "monitor \<Rightarrow> monitor" where
  "stop_monitoring s = (if \<not> running s then s else s\<lparr>running := False\<rparr>)"

subsection \<open>Event handlers\<close>

text \<open>
  \<open>_on_key_press\<close>: the press time is stored under \<open>str(key)\<close>, then the classified
  record is queued; \<open>queue.Full\<close> is caught and the record skipped.
\<close>

definition on_key_press :: "real \<Rightarrow> key \<Rightarrow> monitor \<Rightarrow> monitor" where
  "on_key_press timestamp k s =
     (if \<not> running s then s
      else
        (let (key_type, is_modifier) = classify_key k;
             key_id = key_str k;
             s1 = s\<lparr>key_press_times := (key_press_times s)(key_id \<mapsto> timestamp)\<rparr>;
             keystroke = KeystrokeData timestamp key_type is_modifier None
         in case put_nowait (keystroke_queue s1) keystroke of
              Inr q \<Rightarrow> s1\<lparr>keystroke_queue := q\<rparr>
            | Inl e \<Rightarrow> s1))"

text \<open>\<open>d.get(k, default)\<close> on a dictionary.\<close>

definition dict_get :: "('k \<rightharpoonup> 'v) \<Rightarrow> 'k \<Rightarrow> 'v \<Rightarrow> 'v" where
  "dict_get d k dflt = (case d k of None \<Rightarrow> dflt | Some v \<Rightarrow> v)"

text \<open>\<open>xs[-1].press_duration = d\<close> on a non-empty list.\<close>

definition set_last_press_duration :: "KeystrokeData list \<Rightarrow> real \<Rightarrow> KeystrokeData list" where
  "set_last_press_duration xs d =
     (case last xs of KeystrokeData t kt m _ \<Rightarrow> butlast xs @ [KeystrokeData t kt m (Some d)])"

text \<open>
  \<open>_on_key_release\<close>: when the key has a pending press, the duration is computed and the
  entry deleted; after that the handler compares the timestamp of the last buffered
  record with \<open>key_press_times.get(key_id, 0)\<close>, read from the dictionary as it is after
  the deletion.
\<close>

definition on_key_release :: "real \<Rightarrow> key \<Rightarrow> monitor \<Rightarrow> monitor" where
  "on_key_release timestamp k s =
     (if \<not> running s then s
      else
        (let key_id = key_str k in
         case key_press_times s key_id of
           None \<Rightarrow> s
         | Some pressed_at \<Rightarrow>
             (let press_duration = timestamp - pressed_at;
                  s1 = s\<lparr>key_press_times := (key_press_times s)(key_id := None)\<rparr>
              in if keystroke_data s1 \<noteq> [] \<and>
                    ks_timestamp (last (keystroke_data s1)) = dict_get (key_press_times s1) key_id 0
                 then s1\<lparr>keystroke_data := set_last_press_duration (keystroke_data s1) press_duration\<rparr>
                 else s1)))"

text \<open>
  The three pointer handlers; each queues one record, skipping it on \<open>queue.Full\<close>. The
  argument \<open>button\<close> of \<open>on_mouse_click\<close> is the string \<open>str(button)\<close> that the handler
  stores.
\<close>

definition enqueue_mouse :: "MouseData \<Rightarrow> monitor \<Rightarrow> monitor" where
  "enqueue_mouse mouse_data' s =
     (case put_nowait (mouse_queue s) mouse_data' of
        Inr q \<Rightarrow> s\<lparr>mouse_queue := q\<rparr>
      | Inl e \<Rightarrow> s)"

definition on_mouse_move :: "real \<Rightarrow> int \<Rightarrow> int \<Rightarrow> monitor \<Rightarrow> monitor" where
  "on_mouse_move t x y s =
     (if \<not> running s then s
      else enqueue_mouse (MouseData t x y ''move'' None None) s)"

definition on_mouse_click :: "real \<Rightarrow> int \<Rightarrow> int \<Rightarrow> string \<Rightarrow> bool \<Rightarrow> monitor \<Rightarrow> monitor" where
  "on_mouse_click t x y button pressed s =
     (if \<not> running s then s
      else if pressed then enqueue_mouse (MouseData t x y ''click'' (Some button) None) s
      else s)"

definition on_mouse_scroll :: "real \<Rightarrow> int \<Rightarrow> int \<Rightarrow> int \<Rightarrow> int \<Rightarrow> monitor \<Rightarrow> monitor" where
  "on_mouse_scroll t x y dx dy s =
     (if \<not> running s then s
      else
        (let direction = (if dy > 0 then ''up'' else if dy < 0 then ''down'' else ''horizontal'')
         in enqueue_mouse (MouseData t x y ''scroll'' None (Some direction)) s))"

subsection \<open>Draining the queues and eviction\<close>

text \<open>
  \<open>_process_queued_data\<close>: the two \<open>while not q.empty()\<close> loops, each taking one record per
  round. The recursion is on the number of queued records.
\<close>

function drain_keystrokes :: "real \<Rightarrow> monitor \<Rightarrow> monitor" where
  "drain_keystrokes current_time s =
     (if queue_empty (keystroke_queue s) then s
      else
        (case get_nowait (keystroke_queue s) of
           Inl e \<Rightarrow> s
         | Inr (keystroke, q) \<Rightarrow>
             drain_keystrokes current_time
               (s\<lparr>keystroke_queue := q,
                  keystroke_data := deque_append data_maxlen (keystroke_data s) keystroke,
                  cm_total_keystrokes := cm_total_keystrokes s + 1,
                  cm_last_activity := current_time\<rparr>)))"
  by pat_completeness auto
termination
  by (relation "measure (\<lambda>(t, s). qsize (keystroke_queue s))")
     (auto simp: get_nowait_def qsize_def split: list.splits)

function drain_mouse :: "real \<Rightarrow> monitor \<Rightarrow> monitor" where
  "drain_mouse current_time s =
     (if queue_empty (mouse_queue s) then s
      else
        (case get_nowait (mouse_queue s) of
           Inl e \<Rightarrow> s
         | Inr (mouse_event, q) \<Rightarrow>
             drain_mouse current_time
               (s\<lparr>mouse_queue := q,
                  mouse_data := deque_append data_maxlen (mouse_data s) mouse_event,
                  cm_total_mouse_events := cm_total_mouse_events s + 1,
                  cm_last_activity := current_time\<rparr>)))"
  by pat_completeness auto
termination
  by (relation "measure (\<lambda>(t, s). qsize (mouse_queue s))")
     (auto simp: get_nowait_def qsize_def split: list.splits)

definition process_queued_data :: "real \<Rightarrow> monitor \<Rightarrow> monitor" where
  "process_queued_data current_time s = drain_mouse current_time (drain_keystrokes current_time s)"

text \<open>
  \<open>_clean_old_data\<close>: \<open>popleft\<close> while the leftmost record is older than the cutoff.
\<close>

definition clean_old_data :: "real \<Rightarrow> monitor \<Rightarrow> monitor" where
  "clean_old_data current_time s =
     (let cutoff_time = current_time - of_int (data_retention s)
      in s\<lparr>keystroke_data := dropWhile (\<lambda>ks. ks_timestamp ks < cutoff_time) (keystroke_data s),
           mouse_data := dropWhile (\<lambda>md. md_timestamp md < cutoff_time) (mouse_data s)\<rparr>)"

section \<open>Windowed metrics\<close>

subsection \<open>Library functions\<close>

text \<open>
  \<open>round(v, ndigits)\<close> rounds to the nearest multiple of \<open>10 ** -ndigits\<close>, a tie going to
  the even neighbour.
\<close>

definition round_half_even :: "real \<Rightarrow> int" where
  "round_half_even r =
     (let f = \<lfloor>r\<rfloor>; d = r - of_int f
      in if d < 1 / 2 then f else if d > 1 / 2 then f + 1 else if even f then f else f + 1)"

definition py_round :: "real \<Rightarrow> nat \<Rightarrow> real" where
  "py_round v ndigits = of_int (round_half_even (v * 10 ^ ndigits)) / 10 ^ ndigits"

text \<open>
  \<open>statistics.mean\<close> and \<open>statistics.variance\<close> (the sample variance, with divisor
  \<open>n - 1\<close>); they raise \<open>StatisticsError\<close> on fewer than one and fewer than two data points.
\<close>

definition statistics_mean :: "real list \<Rightarrow> error + real" where
  "statistics_mean xs =
     (if xs = [] then Inl StatisticsError else Inr (sum_list xs / real (length xs)))"

definition statistics_variance :: "real list \<Rightarrow> error + real" where
  "statistics_variance xs =
     (if length xs < 2 then Inl StatisticsError
      else
        (let m = sum_list xs / real (length xs)
         in Inr (sum_list (map (\<lambda>v. (v - m)\<^sup>2) xs) / real (length xs - 1))))"

subsection \<open>Typing metrics\<close>

text \<open>The loop \<open>for i in range(1, len(recent_keystrokes))\<close> that collects the intervals.\<close>

fun keystroke_intervals :: "KeystrokeData list \<Rightarrow> real list" where
  "keystroke_intervals (prev # cur # rest) =
     (ks_timestamp cur - ks_timestamp prev) # keystroke_intervals (cur # rest)"
| "keystroke_intervals _ = []"

text \<open>
  The burst loop, on the pair \<open>(bursts, consecutive_fast)\<close>: a fast interval extends the
  current run; a slow one closes it, and counts it when it has three intervals or more.
\<close>

definition burst_threshold :: real where
  "burst_threshold = 0.1"

fun burst_loop :: "real list \<Rightarrow> nat \<times> nat \<Rightarrow> nat \<times> nat" where
  "burst_loop [] (bursts, consecutive_fast) = (bursts, consecutive_fast)"
| "burst_loop (interval # rest) (bursts, consecutive_fast) =
     (if interval < burst_threshold then burst_loop rest (bursts, consecutive_fast + 1)
      else burst_loop rest (if consecutive_fast \<ge> 3 then bursts + 1 else bursts, 0))"

definition typing_bursts :: "real list \<Rightarrow> nat" where
  "typing_bursts intervals = fst (burst_loop intervals (0, 0))"

definition calculate_typing_metrics :: "real \<Rightarrow> monitor \<Rightarrow> error + TypingMetrics" where
  "calculate_typing_metrics current_time s =
     (let window_start = current_time - of_int (analysis_window s);
          recent_keystrokes =
            filter (\<lambda>ks. ks_timestamp ks \<ge> window_start \<and> \<not> ks_is_modifier ks) (keystroke_data s)
      in if length recent_keystrokes < 2 then Inr (TypingMetrics 0 0 0 0 0 50 0 0 0 0)
         else
           (let time_span = current_time - ks_timestamp (hd recent_keystrokes);
                wpm = (if time_span > 0
                       then ((real (length recent_keystrokes) / time_span) * 60) / 5 else 0);
                raw_wpm = wpm;
                intervals = keystroke_intervals recent_keystrokes
            in case (if intervals \<noteq> [] then statistics_mean intervals else Inr 0) of
                 Inl e \<Rightarrow> Inl e
               | Inr avg_interval \<Rightarrow>
              (case (if length intervals > 1 then statistics_variance intervals else Inr 0) of
                 Inl e \<Rightarrow> Inl e
               | Inr interval_variance \<Rightarrow>
              (let max_variance = 0.5;
                   rhythm_consistency = max 0 (100 - (interval_variance / max_variance) * 100);
                   pauses = length (filter (\<lambda>interval. interval > 2.0) intervals);
                   pause_frequency =
                     (if intervals \<noteq> [] then (real pauses / real (length intervals)) * 100 else 0);
                   bursts = typing_bursts intervals;
                   baseline_wpm = 40;
                   wpm_factor = max 0 ((baseline_wpm - wpm) / baseline_wpm) * 100;
                   variance_factor = min 100 ((interval_variance / max_variance) * 100);
                   fatigue_score = (wpm_factor + variance_factor + pause_frequency) / 3;
                   health_score = min 100 (max 0 (100 - fatigue_score + (rhythm_consistency - 50) / 2));
                   accuracy_score =
                     min 100 (max 0 (100 - (pause_frequency / 2) - (interval_variance * 100)))
               in Inr (TypingMetrics
                    (py_round wpm 2)
                    (py_round raw_wpm 2)
                    (py_round accuracy_score 2)
                    (py_round rhythm_consistency 2)
                    (py_round fatigue_score 2)
                    (py_round health_score 2)
                    (py_round avg_interval 3)
                    (py_round interval_variance 3)
                    (py_round pause_frequency 2)
                    bursts)))))"

subsection \<open>Mouse metrics\<close>

text \<open>The distance loop over consecutive \<open>move\<close> events.\<close>

fun path_length :: "MouseData list \<Rightarrow> real" where
  "path_length (prev # cur # rest) =
     sqrt (of_int ((md_x cur - md_x prev)\<^sup>2 + (md_y cur - md_y prev)\<^sup>2))
       + path_length (cur # rest)"
| "path_length _ = 0"

text \<open>
  The body of the smoothness loop for one interior event \<open>cur\<close>: whether the turn from
  \<open>prev\<close> through \<open>cur\<close> to \<open>next_event\<close> has a cosine under one half.
\<close>

definition is_direction_change :: "MouseData \<Rightarrow> MouseData \<Rightarrow> MouseData \<Rightarrow> bool" where
  "is_direction_change prev cur next_event =
     (let vec1 = (md_x cur - md_x prev, md_y cur - md_y prev);
          vec2 = (md_x next_event - md_x cur, md_y next_event - md_y cur)
      in if vec1 \<noteq> (0, 0) \<and> vec2 \<noteq> (0, 0) then
           (let dot_product = fst vec1 * fst vec2 + snd vec1 * snd vec2;
                mag1 = sqrt (of_int ((fst vec1)\<^sup>2 + (snd vec1)\<^sup>2));
                mag2 = sqrt (of_int ((fst vec2)\<^sup>2 + (snd vec2)\<^sup>2))
            in if mag1 > 0 \<and> mag2 > 0 then
                 (let cos_angle = of_int dot_product / (mag1 * mag2);
                      cos_angle = max (- 1) (min 1 cos_angle)
                  in cos_angle < 0.5)
               else False)
         else False)"

text \<open>
  The loop \<open>for i in range(1, len(movement_events))\<close> with its \<open>break\<close> at the last index:
  \<open>i\<close> runs over the events that have a predecessor and a successor. (The variable
  \<open>curr\<close> of the source is written \<open>cur\<close>.)
\<close>

fun count_direction_changes :: "MouseData list \<Rightarrow> nat" where
  "count_direction_changes (prev # cur # next_event # rest) =
     (if is_direction_change prev cur next_event then 1 else 0)
       + count_direction_changes (cur # next_event # rest)"
| "count_direction_changes _ = 0"

text \<open>The idle loop over \<open>recent_mouse[1:]\<close>, started with the first timestamp.\<close>

fun count_idle_periods :: "real \<Rightarrow> MouseData list \<Rightarrow> nat" where
  "count_idle_periods last_timestamp [] = 0"
| "count_idle_periods last_timestamp (event # rest) =
     (if md_timestamp event - last_timestamp > 5.0 then 1 else 0)
       + count_idle_periods (md_timestamp event) rest"

text \<open>
  \<open>_calculate_mouse_metrics\<close>. The two frequencies divide by \<open>analysis_window\<close>, which
  raises \<open>ZeroDivisionError\<close> when the window is configured as zero.
\<close>

definition calculate_mouse_metrics :: "real \<Rightarrow> monitor \<Rightarrow> error + MouseMetrics" where
  "calculate_mouse_metrics current_time s =
     (let window_start = current_time - of_int (analysis_window s);
          recent_mouse = filter (\<lambda>md. md_timestamp md \<ge> window_start) (mouse_data s)
      in if recent_mouse = [] then Inr (MouseMetrics 0 0 0 0 0 0 0)
         else
           (let movement_events = filter (\<lambda>md. md_action md = ''move'') recent_mouse;
                total_distance = path_length movement_events;
                time_span = current_time - md_timestamp (hd recent_mouse);
                avg_speed = (if time_span > 0 then total_distance / time_span else 0);
                clicks = length (filter (\<lambda>md. md_action md = ''click'') recent_mouse);
                scrolls = length (filter (\<lambda>md. md_action md = ''scroll'') recent_mouse)
            in if analysis_window s = 0 then Inl ZeroDivisionError
               else
                 (let click_frequency = (real clicks / of_int (analysis_window s)) * 60;
                      scroll_frequency = (real scrolls / of_int (analysis_window s)) * 60;
                      direction_changes = count_direction_changes movement_events;
                      movement_smoothness =
                        (if movement_events \<noteq> []
                         then max 0 (100 - (real direction_changes / real (length movement_events)) * 100)
                         else 100);
                      idle_periods =
                        count_idle_periods (md_timestamp (hd recent_mouse)) (tl recent_mouse);
                      active_time = time_span - real idle_periods * 5;
                      active_time_percentage =
                        (if time_span > 0 then (active_time / time_span) * 100 else 0);
                      active_time_percentage = max 0 (min 100 active_time_percentage)
                  in Inr (MouseMetrics
                       (py_round total_distance 2)
                       (py_round avg_speed 2)
                       (py_round click_frequency 2)
                       (py_round scroll_frequency 2)
                       (py_round movement_smoothness 2)
                       idle_periods
                       (py_round active_time_percentage 2)))))"

section \<open>The analysis loop and the snapshot query\<close>

text \<open>
  One round of \<open>_analysis_loop\<close>, statement by statement. The two assignments to
  \<open>current_metrics\<close> are separate statements; an exception raised by a statement ends the
  round (the handler prints it and sleeps) and leaves the monitor as the statements before
  it have made it. The four arguments are the readings of the clock that the four calls
  take.
\<close>

definition update_typing :: "real \<Rightarrow> monitor \<Rightarrow> error + monitor" where
  "update_typing t s =
     (case calculate_typing_metrics t s of Inl e \<Rightarrow> Inl e | Inr m \<Rightarrow> Inr (s\<lparr>cm_typing := m\<rparr>))"

definition update_mouse :: "real \<Rightarrow> monitor \<Rightarrow> error + monitor" where
  "update_mouse t s =
     (case calculate_mouse_metrics t s of Inl e \<Rightarrow> Inl e | Inr m \<Rightarrow> Inr (s\<lparr>cm_mouse := m\<rparr>))"

definition analysis_round :: "real \<Rightarrow> real \<Rightarrow> real \<Rightarrow> real \<Rightarrow> monitor \<Rightarrow> monitor" where
  "analysis_round t1 t2 t3 t4 s =
     (let s1 = process_queued_data t1 s;
          s2 = clean_old_data t2 s1
      in case update_typing t3 s2 of
           Inl e \<Rightarrow> s2
         | Inr s3 \<Rightarrow> (case update_mouse t4 s3 of Inl e \<Rightarrow> s3 | Inr s4 \<Rightarrow> s4))"

text \<open>
  The states of the monitor that another thread can find while a round runs: the state
  before the round and the state after each statement that has completed.
\<close>

definition round_states :: "real \<Rightarrow> real \<Rightarrow> real \<Rightarrow> real \<Rightarrow> monitor \<Rightarrow> monitor list" where
  "round_states t1 t2 t3 t4 s =
     (let s1 = process_queued_data t1 s;
          s2 = clean_old_data t2 s1
      in [s, s1, s2] @
         (case update_typing t3 s2 of
            Inl e \<Rightarrow> []
          | Inr s3 \<Rightarrow> s3 # (case update_mouse t4 s3 of Inl e \<Rightarrow> [] | Inr s4 \<Rightarrow> [s4])))"

text \<open>
  The dictionary that \<open>get_current_metrics\<close> returns. \<open>asdict\<close> copies the fields of a
  metrics object, so the object itself stands for the copy.
\<close>

record snapshot =
  timestamp :: real
  session_duration :: real
  time_since_last_activity :: real
  is_inactive :: bool
  typing_metrics :: TypingMetrics
  mouse_metrics :: MouseMetrics
  total_keystrokes :: nat
  total_mouse_events :: nat
  snapshot_app_usage :: "string \<rightharpoonup> real"

definition get_current_metrics :: "real \<Rightarrow> monitor \<Rightarrow> snapshot" where
  "get_current_metrics current_time s =
     (let session_duration' = current_time - cm_session_start s;
          time_since_last_activity' = current_time - cm_last_activity s;
          is_inactive' = (time_since_last_activity' > of_int (inactivity_threshold s))
      in \<lparr>timestamp = current_time,
          session_duration = py_round session_duration' 2,
          time_since_last_activity = py_round time_since_last_activity' 2,
          is_inactive = is_inactive',
          typing_metrics = cm_typing s,
          mouse_metrics = cm_mouse s,
          total_keystrokes = cm_total_keystrokes s,
          total_mouse_events = cm_total_mouse_events s,
          snapshot_app_usage = app_usage s\<rparr>)"

subsection \<open>Runs of the monitor\<close>

text \<open>
  What reaches the monitor: the calls that start and stop it, the five callbacks of the
  listeners, each with the reading of the clock it takes, and the rounds of the analysis
  loop.
\<close>

datatype event =
    Start
  | Stop
  | KeyPress real key
  | KeyRelease real key
  | MouseMove real int int
  | MouseClick real int int string bool
  | MouseScroll real int int int int
  | Round real real real real

fun handle :: "event \<Rightarrow> monitor \<Rightarrow> monitor" where
  "handle Start s = start_monitoring s"
| "handle Stop s = stop_monitoring s"
| "handle (KeyPress t k) s = on_key_press t k s"
| "handle (KeyRelease t k) s = on_key_release t k s"
| "handle (MouseMove t x y) s = on_mouse_move t x y s"
| "handle (MouseClick t x y button pressed) s = on_mouse_click t x y button pressed s"
| "handle (MouseScroll t x y dx dy) s = on_mouse_scroll t x y dx dy s"
| "handle (Round t1 t2 t3 t4) s = analysis_round t1 t2 t3 t4 s"

definition run :: "event list \<Rightarrow> monitor \<Rightarrow> monitor" where
  "run evs s = fold handle evs s"

section \<open>Notions used in the statements\<close>

text \<open>
  Button releases among the events: the calls of \<open>_on_mouse_click\<close> with \<open>pressed\<close> false.
\<close>

fun is_button_release :: "event \<Rightarrow> bool" where
  "is_button_release (MouseClick t x y button pressed) = (\<not> pressed)"
| "is_button_release _ = False"

text \<open>
  Written from the specification, to be compared with \<open>typing_bursts\<close>: the maximal runs
  of consecutive intervals that are each under 0.1 seconds, and the number of those runs
  that have three intervals or more.
\<close>

definition is_fast :: "real \<Rightarrow> bool" where
  "is_fast interval = (interval < 0.1)"

function fast_runs :: "real list \<Rightarrow> real list list" where
  "fast_runs [] = []"
| "fast_runs (v # vs) =
     (if is_fast v then takeWhile is_fast (v # vs) # fast_runs (dropWhile is_fast (v # vs))
      else fast_runs vs)"
  by pat_completeness auto
termination
  by (relation "measure length") (auto simp: length_dropWhile_le less_Suc_eq_le)

definition spec_typing_bursts :: "real list \<Rightarrow> nat" where
  "spec_typing_bursts intervals = length (filter (\<lambda>r. length r \<ge> 3) (fast_runs intervals))"

text \<open>
  Two events have the same class when they are the same callback at the same time and
  their keys, if they carry one, have the same classification; all other events have to
  be equal. \<open>forget_keys\<close> empties the dictionary of pending presses. \<open>stamps_nonzero\<close>
  says that no keystroke record of the monitor carries the timestamp zero, and
  \<open>press_stamp_nonzero\<close> that a key press does not happen at the clock reading zero.
\<close>

fun same_class :: "event \<Rightarrow> event \<Rightarrow> bool" where
  "same_class (KeyPress t k) (KeyPress t' k') = (t = t' \<and> classify_key k = classify_key k')"
| "same_class (KeyRelease t k) (KeyRelease t' k') = (t = t' \<and> classify_key k = classify_key k')"
| "same_class e e' = (e = e')"

definition forget_keys :: "monitor \<Rightarrow> monitor" where
  "forget_keys s = s\<lparr>key_press_times := Map.empty\<rparr>"

fun press_stamp_nonzero :: "event \<Rightarrow> bool" where
  "press_stamp_nonzero (KeyPress t k) = (t \<noteq> 0)"
| "press_stamp_nonzero _ = True"

definition stamps_nonzero :: "monitor \<Rightarrow> bool" where
  "stamps_nonzero s =
     (list_all (\<lambda>ks. ks_timestamp ks \<noteq> 0) (keystroke_data s)
      \<and> list_all (\<lambda>ks. ks_timestamp ks \<noteq> 0) (items (keystroke_queue s)))"

section \<open>Example inputs\<close>

text \<open>
  The keys \<open>a\<close>, \<open>b\<close> and shift as \<open>pynput\<close> reports them, a monitor with the default
  configuration that has been started, and monitors with a few buffered records.
\<close>

definition key_a :: key where
  "key_a = \<lparr>key_char = Some ''a'', key_str = [CHR 0x27, CHR ''a'', CHR 0x27]\<rparr>"

definition key_b :: key where
  "key_b = \<lparr>key_char = Some ''b'', key_str = [CHR 0x27, CHR ''b'', CHR 0x27]\<rparr>"

definition key_shift :: key where
  "key_shift = \<lparr>key_char = None, key_str = ''Key.shift''\<rparr>"

definition started :: monitor where
  "started = start_monitoring (init 60 30 3600 0 0 0)"

definition one_letter :: monitor where
  "one_letter = started\<lparr>keystroke_data :=
     [KeystrokeData 1 ''letter'' False None, KeystrokeData 2 ''modifier'' True None]\<rparr>"

definition aged :: monitor where
  "aged = started\<lparr>keystroke_data :=
            [KeystrokeData 100 ''letter'' False None, KeystrokeData 500 ''space'' False None,
             KeystrokeData 3900 ''letter'' False None],
          mouse_data :=
            [MouseData 200 0 0 ''move'' None None, MouseData 3800 5 5 ''click'' (Some ''Button.left'') None]\<rparr>"

definition four_fast :: monitor where
  "four_fast =
     run [KeyPress 1.00 key_a, KeyPress 1.05 key_b, KeyPress 1.10 key_a, KeyPress 1.15 key_b,
          Round 2 2 2 2] started"

definition pressing :: monitor where
  "pressing = run [Start, KeyPress 1 key_a] (init 60 30 3600 0 0 0)"

text \<open>
  Two rounds of the analysis loop: a button press before the first round, two key presses
  and a button press before the second, and the monitor as another thread finds it in
  the second round between the assignment of the typing metrics and the assignment of
  the mouse metrics.
\<close>

definition after_first_round :: monitor where
  "after_first_round = run [MouseClick 1 0 0 ''Button.left'' True, Round 2 2 2 2] started"

definition before_second_round :: monitor where
  "before_second_round =
     run [KeyPress 3 key_a, KeyPress 3.5 key_b, MouseClick 3.6 0 0 ''Button.left'' True]
       after_first_round"

definition after_second_round :: monitor where
  "after_second_round = analysis_round 4 4 4 4 before_second_round"

definition amid_second_round :: monitor where
  "amid_second_round = round_states 4 4 4 4 before_second_round ! 3"

section \<open>Rounding and statistics\<close>

lemma round_half_even_ge: "of_int a \<le> r \<Longrightarrow> a \<le> round_half_even r"
proof -
  assume "of_int a \<le> r"
  then have "a \<le> \<lfloor>r\<rfloor>" by (simp add: le_floor_iff)
  then show ?thesis unfolding round_half_even_def Let_def by auto
qed

lemma round_half_even_le: "r \<le> of_int b \<Longrightarrow> round_half_even r \<le> b"
proof -
  assume h: "r \<le> of_int b"
  have f: "\<lfloor>r\<rfloor> \<le> b" using h by (simp add: floor_le_iff) 
  have g: "r - of_int \<lfloor>r\<rfloor> > 0 \<Longrightarrow> \<lfloor>r\<rfloor> + 1 \<le> b"
  proof -
    assume "r - of_int \<lfloor>r\<rfloor> > 0"
    then have "of_int \<lfloor>r\<rfloor> < (of_int b :: real)" using h by linarith
    then show ?thesis by simp
  qed
  show ?thesis unfolding round_half_even_def Let_def using f g by auto
qed

lemma py_round_nonneg: "0 \<le> v \<Longrightarrow> 0 \<le> py_round v n"
proof -
  assume "0 \<le> v"
  then have "of_int 0 \<le> v * 10 ^ n" by simp
  then have "0 \<le> round_half_even (v * 10 ^ n)" by (rule round_half_even_ge)
  then show ?thesis by (simp add: py_round_def)
qed

lemma py_round_le: "v \<le> of_int b \<Longrightarrow> py_round v n \<le> of_int b"
proof -
  assume "v \<le> of_int b"
  then have "v * 10 ^ n \<le> of_int (b * 10 ^ n)" by simp
  then have "round_half_even (v * 10 ^ n) \<le> b * 10 ^ n" by (rule round_half_even_le)
  then have "(of_int (round_half_even (v * 10 ^ n)) :: real) \<le> of_int (b * 10 ^ n)"
    by (simp only: of_int_le_iff)
  then show ?thesis by (simp add: py_round_def divide_le_eq)
qed

lemma py_round_zero: "py_round 0 n = 0"
  by (simp add: py_round_def round_half_even_def)

lemma statistics_variance_nonneg: "statistics_variance xs = Inr v \<Longrightarrow> 0 \<le> v"
  by (auto simp: statistics_variance_def Let_def split: if_splits intro!: divide_nonneg_nonneg sum_list_nonneg)

lemma keystroke_intervals_length: "length (keystroke_intervals ks) = length ks - 1"
  by (induction ks rule: keystroke_intervals.induct) auto

section \<open>Typing metrics\<close>

text \<open>
  Claim C8. When fewer than two non-modifier keystroke records have a timestamp inside the
  analysis window, \<open>_calculate_typing_metrics\<close> returns the degenerate value: every field
  zero except \<open>health_score\<close>, which is 50.
\<close>

theorem typing_metrics_degenerate:
  assumes "length (filter (\<lambda>ks. ks_timestamp ks \<ge> now - of_int (analysis_window s) \<and> \<not> ks_is_modifier ks)
                     (keystroke_data s)) < 2"
  shows "calculate_typing_metrics now s = Inr (TypingMetrics 0 0 0 0 0 50 0 0 0 0)"
  using assms by (simp add: calculate_typing_metrics_def Let_def)

theorem typing_metrics_degenerate_witness:
  "length (filter (\<lambda>ks. ks_timestamp ks \<ge> 3 - of_int (analysis_window one_letter) \<and> \<not> ks_is_modifier ks)
                     (keystroke_data one_letter)) < 2
   \<and> calculate_typing_metrics 3 one_letter = Inr (TypingMetrics 0 0 0 0 0 50 0 0 0 0)"
proof -
  have h: "length (filter (\<lambda>ks. ks_timestamp ks \<ge> 3 - of_int (analysis_window one_letter) \<and> \<not> ks_is_modifier ks)
                     (keystroke_data one_letter)) < 2"
    by (simp add: one_letter_def)
  from typing_metrics_degenerate [OF h] h show ?thesis by simp
qed

text \<open>
  Claim C9. Whatever the buffered keystroke records are, \<open>_calculate_typing_metrics\<close>
  returns a value (it raises nothing), and in it \<open>keystroke_variance\<close> is not negative
  and \<open>rhythm_consistency\<close> lies between 0 and 100.
\<close>

theorem typing_metrics_ranges:
  "\<exists>m. calculate_typing_metrics now s = Inr m
       \<and> 0 \<le> tm_keystroke_variance m
       \<and> 0 \<le> tm_rhythm_consistency m \<and> tm_rhythm_consistency m \<le> 100"
proof -
  define recent where "recent =
    filter (\<lambda>ks. ks_timestamp ks \<ge> now - of_int (analysis_window s) \<and> \<not> ks_is_modifier ks) (keystroke_data s)"
  define intervals where "intervals = keystroke_intervals recent"
  show ?thesis
  proof (cases "length recent < 2")
    case True
    then show ?thesis
      by (simp add: calculate_typing_metrics_def Let_def recent_def)
  next
    case False
    then have ne: "intervals \<noteq> []"
      using keystroke_intervals_length [of recent] by (auto simp: intervals_def)
    obtain avg where avg: "statistics_mean intervals = Inr avg"
      using ne by (simp add: statistics_mean_def)
    have "\<exists>var. (if length intervals > 1 then statistics_variance intervals else Inr 0) = Inr var"
      by (cases "length intervals > 1") (simp_all add: statistics_variance_def Let_def)
    then obtain var where var: "(if length intervals > 1 then statistics_variance intervals else Inr 0) = Inr var"
      by blast
    have var0: "0 \<le> var"
      using var statistics_variance_nonneg [of intervals var] by (auto split: if_splits)
    have r1: "0 \<le> py_round var 3" using var0 by (rule py_round_nonneg)
    have "0 \<le> max 0 (100 - var / 0.5 * 100)" by simp
    then have r2: "0 \<le> py_round (max 0 (100 - var / 0.5 * 100)) 2" by (rule py_round_nonneg)
    have "max 0 (100 - var / 0.5 * 100) \<le> of_int 100" using var0 by simp
    then have "py_round (max 0 (100 - var / 0.5 * 100)) 2 \<le> of_int 100" by (rule py_round_le)
    then have r3: "py_round (max 0 (100 - var / 0.5 * 100)) 2 \<le> 100" by simp
    show ?thesis
      using False ne avg var r1 r2 r3
      by (simp add: calculate_typing_metrics_def Let_def recent_def [symmetric] intervals_def [symmetric])
  qed
qed

lemma calculate_typing_metrics_returns: "\<exists>m. calculate_typing_metrics now s = Inr m"
proof -
  define recent where "recent =
    filter (\<lambda>ks. ks_timestamp ks \<ge> now - of_int (analysis_window s) \<and> \<not> ks_is_modifier ks) (keystroke_data s)"
  define intervals where "intervals = keystroke_intervals recent"
  show ?thesis
  proof (cases "length recent < 2")
    case True
    then show ?thesis
      by (simp add: calculate_typing_metrics_def Let_def recent_def)
  next
    case False
    then have ne: "intervals \<noteq> []"
      using keystroke_intervals_length [of recent] by (auto simp: intervals_def)
    obtain avg where avg: "statistics_mean intervals = Inr avg"
      using ne by (simp add: statistics_mean_def)
    have "\<exists>var. (if length intervals > 1 then statistics_variance intervals else Inr 0) = Inr var"
      by (cases "length intervals > 1") (simp_all add: statistics_variance_def Let_def)
    then obtain var where var: "(if length intervals > 1 then statistics_variance intervals else Inr 0) = Inr var"
      by blast
    show ?thesis
      using False ne avg var
      by (simp add: calculate_typing_metrics_def Let_def recent_def [symmetric] intervals_def [symmetric])
  qed
qed

lemma calculate_mouse_metrics_returns:
  "analysis_window s \<noteq> 0 \<Longrightarrow> \<exists>m. calculate_mouse_metrics now s = Inr m"
  by (simp add: calculate_mouse_metrics_def Let_def)

text \<open>The two metrics read the window and their own buffer, and nothing else of the monitor.\<close>

lemma calculate_typing_metrics_cong:
  assumes a: "analysis_window s = analysis_window s'" and b: "keystroke_data s = keystroke_data s'"
  shows "calculate_typing_metrics t s = calculate_typing_metrics t s'"
  unfolding calculate_typing_metrics_def a b by (rule refl)

lemma calculate_mouse_metrics_cong:
  assumes a: "analysis_window s = analysis_window s'" and b: "mouse_data s = mouse_data s'"
  shows "calculate_mouse_metrics t s = calculate_mouse_metrics t s'"
  unfolding calculate_mouse_metrics_def a b by (rule refl)

section \<open>Draining and eviction\<close>

text \<open>
  The two drain loops call themselves unconditionally in their defining equations, which
  are therefore used by substitution only; their results have these closed forms.
\<close>

declare drain_keystrokes.simps [simp del] drain_mouse.simps [simp del]

lemma drain_keystrokes_eq:
  "drain_keystrokes t s =
     (if items (keystroke_queue s) = [] then s
      else s\<lparr>keystroke_queue := (keystroke_queue s)\<lparr>items := []\<rparr>,
             keystroke_data := foldl (deque_append data_maxlen) (keystroke_data s) (items (keystroke_queue s)),
             cm_total_keystrokes := cm_total_keystrokes s + length (items (keystroke_queue s)),
             cm_last_activity := t\<rparr>)"
proof (induction "items (keystroke_queue s)" arbitrary: s)
  case Nil
  then show ?case
    by (subst drain_keystrokes.simps) (simp add: queue_empty_def)
next
  case (Cons v vs)
  define s' where "s' = s\<lparr>keystroke_queue := (keystroke_queue s)\<lparr>items := vs\<rparr>,
                  keystroke_data := deque_append data_maxlen (keystroke_data s) v,
                  cm_total_keystrokes := cm_total_keystrokes s + 1,
                  cm_last_activity := t\<rparr>"
  have step: "drain_keystrokes t s = drain_keystrokes t s'"
    using Cons.hyps(2) [symmetric]
    by (subst drain_keystrokes.simps) (simp add: queue_empty_def get_nowait_def s'_def)
  have "vs = items (keystroke_queue s')" by (simp add: s'_def)
  from Cons.hyps(1) [OF this] have ih: "drain_keystrokes t s' =
     (if items (keystroke_queue s') = [] then s'
      else s'\<lparr>keystroke_queue := (keystroke_queue s')\<lparr>items := []\<rparr>,
             keystroke_data := foldl (deque_append data_maxlen) (keystroke_data s') (items (keystroke_queue s')),
             cm_total_keystrokes := cm_total_keystrokes s' + length (items (keystroke_queue s')),
             cm_last_activity := t\<rparr>)" .
  show ?case
    unfolding step ih using Cons.hyps(2) [symmetric]
    by (cases vs) (simp_all add: s'_def)
qed

lemma drain_mouse_eq:
  "drain_mouse t s =
     (if items (mouse_queue s) = [] then s
      else s\<lparr>mouse_queue := (mouse_queue s)\<lparr>items := []\<rparr>,
             mouse_data := foldl (deque_append data_maxlen) (mouse_data s) (items (mouse_queue s)),
             cm_total_mouse_events := cm_total_mouse_events s + length (items (mouse_queue s)),
             cm_last_activity := t\<rparr>)"
proof (induction "items (mouse_queue s)" arbitrary: s)
  case Nil
  then show ?case
    by (subst drain_mouse.simps) (simp add: queue_empty_def)
next
  case (Cons v vs)
  define s' where "s' = s\<lparr>mouse_queue := (mouse_queue s)\<lparr>items := vs\<rparr>,
                  mouse_data := deque_append data_maxlen (mouse_data s) v,
                  cm_total_mouse_events := cm_total_mouse_events s + 1,
                  cm_last_activity := t\<rparr>"
  have step: "drain_mouse t s = drain_mouse t s'"
    using Cons.hyps(2) [symmetric]
    by (subst drain_mouse.simps) (simp add: queue_empty_def get_nowait_def s'_def)
  have "vs = items (mouse_queue s')" by (simp add: s'_def)
  from Cons.hyps(1) [OF this] have ih: "drain_mouse t s' =
     (if items (mouse_queue s') = [] then s'
      else s'\<lparr>mouse_queue := (mouse_queue s')\<lparr>items := []\<rparr>,
             mouse_data := foldl (deque_append data_maxlen) (mouse_data s') (items (mouse_queue s')),
             cm_total_mouse_events := cm_total_mouse_events s' + length (items (mouse_queue s')),
             cm_last_activity := t\<rparr>)" .
  show ?case
    unfolding step ih using Cons.hyps(2) [symmetric]
    by (cases vs) (simp_all add: s'_def)
qed

lemma process_queued_data_eq:
  "process_queued_data t s =
     s\<lparr>keystroke_queue := (keystroke_queue s)\<lparr>items := []\<rparr>,
       keystroke_data := foldl (deque_append data_maxlen) (keystroke_data s) (items (keystroke_queue s)),
       cm_total_keystrokes := cm_total_keystrokes s + length (items (keystroke_queue s)),
       mouse_queue := (mouse_queue s)\<lparr>items := []\<rparr>,
       mouse_data := foldl (deque_append data_maxlen) (mouse_data s) (items (mouse_queue s)),
       cm_total_mouse_events := cm_total_mouse_events s + length (items (mouse_queue s)),
       cm_last_activity :=
         (if items (keystroke_queue s) = [] \<and> items (mouse_queue s) = []
          then cm_last_activity s else t)\<rparr>"
proof -
  have q: "\<And>q :: 'a Queue. items q = [] \<Longrightarrow> q\<lparr>items := []\<rparr> = q" by simp
  show ?thesis
    by (cases "items (keystroke_queue s) = []"; cases "items (mouse_queue s) = []")
       (simp_all add: process_queued_data_def drain_keystrokes_eq drain_mouse_eq q)
qed

lemma dropWhile_sorted_ge:
  "sorted (map f xs) \<Longrightarrow> v \<in> set (dropWhile (\<lambda>r. f r < c) xs) \<Longrightarrow> \<not> f v < (c::real)"
proof (induction xs)
  case Nil
  then show ?case by simp
next
  case (Cons a xs)
  show ?case
  proof (cases "f a < c")
    case True
    with Cons show ?thesis by simp
  next
    case False
    with Cons.prems have "v = a \<or> v \<in> set xs" by simp
    moreover have "\<forall>r\<in>set xs. f a \<le> f r" using Cons.prems(1) by simp
    ultimately show ?thesis using False by fastforce
  qed
qed

text \<open>
  Claim C7. When the timestamps of each buffer are non-decreasing in the order of
  appending, then right after \<open>_clean_old_data\<close> has run at time \<open>now\<close> neither buffer
  holds a record whose timestamp is less than \<open>now - data_retention\<close>.
\<close>

theorem clean_old_data_evicts:
  assumes "sorted (map ks_timestamp (keystroke_data s))"
    and "sorted (map md_timestamp (mouse_data s))"
  shows "(\<forall>ks \<in> set (keystroke_data (clean_old_data now s)).
            \<not> ks_timestamp ks < now - of_int (data_retention s))
       \<and> (\<forall>md \<in> set (mouse_data (clean_old_data now s)).
            \<not> md_timestamp md < now - of_int (data_retention s))"
  using assms by (auto simp: clean_old_data_def Let_def dest: dropWhile_sorted_ge)

theorem clean_old_data_evicts_witness:
  "sorted (map ks_timestamp (keystroke_data aged)) \<and> sorted (map md_timestamp (mouse_data aged))
   \<and> keystroke_data (clean_old_data 4000 aged) \<noteq> keystroke_data aged
   \<and> list_all (\<lambda>ks. \<not> ks_timestamp ks < 4000 - of_int (data_retention aged))
         (keystroke_data (clean_old_data 4000 aged))
   \<and> list_all (\<lambda>md. \<not> md_timestamp md < 4000 - of_int (data_retention aged))
         (mouse_data (clean_old_data 4000 aged))"
proof -
  have h1: "sorted (map ks_timestamp (keystroke_data aged))" by (simp add: aged_def)
  have h2: "sorted (map md_timestamp (mouse_data aged))" by (simp add: aged_def)
  have h3: "keystroke_data (clean_old_data 4000 aged) \<noteq> keystroke_data aged"
    by (simp add: aged_def clean_old_data_def started_def start_monitoring_def init_def)
  from clean_old_data_evicts [OF h1 h2, of 4000] h1 h2 h3 show ?thesis
    unfolding list_all_iff by blast
qed

section \<open>Rounds of the analysis loop\<close>

lemma update_typing_cases:
  obtains m where "update_typing t s = Inr (s\<lparr>cm_typing := m\<rparr>)" "calculate_typing_metrics t s = Inr m"
  using calculate_typing_metrics_returns [of t s] by (auto simp: update_typing_def)

lemma update_mouse_cases:
  obtains (raised) e where "update_mouse t s = Inl e"
  | (returned) m where "update_mouse t s = Inr (s\<lparr>cm_mouse := m\<rparr>)" "calculate_mouse_metrics t s = Inr m"
  by (cases "calculate_mouse_metrics t s") (auto simp: update_mouse_def)

text \<open>What a round does to the fields that the metrics do not live in.\<close>

lemma analysis_round_frame:
  "\<exists>tm mm. analysis_round t1 t2 t3 t4 s =
      (clean_old_data t2 (process_queued_data t1 s))\<lparr>cm_typing := tm, cm_mouse := mm\<rparr>"
proof -
  define s2 where "s2 = clean_old_data t2 (process_queued_data t1 s)"
  obtain m where m: "update_typing t3 s2 = Inr (s2\<lparr>cm_typing := m\<rparr>)"
    by (rule update_typing_cases)
  show ?thesis
  proof (cases rule: update_mouse_cases [of t4 "s2\<lparr>cm_typing := m\<rparr>"])
    case (raised e)
    then have "analysis_round t1 t2 t3 t4 s = s2\<lparr>cm_typing := m, cm_mouse := cm_mouse s2\<rparr>"
      using m by (simp add: analysis_round_def s2_def [symmetric])
    then show ?thesis unfolding s2_def by blast
  next
    case (returned mm)
    then have "analysis_round t1 t2 t3 t4 s = s2\<lparr>cm_typing := m, cm_mouse := mm\<rparr>"
      using m by (simp add: analysis_round_def s2_def [symmetric])
    then show ?thesis unfolding s2_def by blast
  qed
qed

lemma analysis_round_returned:
  assumes "analysis_window s \<noteq> 0"
  obtains tm mm where
    "analysis_round t1 t2 t3 t4 s =
       (clean_old_data t2 (process_queued_data t1 s))\<lparr>cm_typing := tm, cm_mouse := mm\<rparr>"
    "calculate_typing_metrics t3 (clean_old_data t2 (process_queued_data t1 s)) = Inr tm"
    "calculate_mouse_metrics t4 (clean_old_data t2 (process_queued_data t1 s)) = Inr mm"
proof -
  define s2 where "s2 = clean_old_data t2 (process_queued_data t1 s)"
  have w: "analysis_window s2 \<noteq> 0"
    using assms by (simp add: s2_def clean_old_data_def process_queued_data_eq Let_def)
  obtain tm where tm: "update_typing t3 s2 = Inr (s2\<lparr>cm_typing := tm\<rparr>)"
    "calculate_typing_metrics t3 s2 = Inr tm"
    by (rule update_typing_cases)
  have c: "calculate_mouse_metrics t4 (s2\<lparr>cm_typing := tm\<rparr>) = calculate_mouse_metrics t4 s2"
    by (rule calculate_mouse_metrics_cong) simp_all
  obtain mm where mm: "calculate_mouse_metrics t4 s2 = Inr mm"
    using calculate_mouse_metrics_returns [OF w] by blast
  have "analysis_round t1 t2 t3 t4 s = s2\<lparr>cm_typing := tm, cm_mouse := mm\<rparr>"
    unfolding analysis_round_def Let_def s2_def [symmetric]
    by (simp add: tm update_mouse_def c mm)
  then show ?thesis using that tm(2) mm unfolding s2_def by blast
qed

lemma last_round_states:
  "last (round_states t1 t2 t3 t4 s) = analysis_round t1 t2 t3 t4 s"
  by (simp add: round_states_def analysis_round_def Let_def split: sum.splits)

section \<open>The example keys and the started monitor\<close>

lemma started_eq:
  "started = (init 60 30 3600 0 0 0)\<lparr>running := True\<rparr>"
  by (simp add: started_def start_monitoring_def init_def)

lemma classify_key_a: "classify_key key_a = (''letter'', False)"
  by (simp add: classify_key_def key_a_def isalpha_def char_isalpha_def)

lemma classify_key_b: "classify_key key_b = (''letter'', False)"
  by (simp add: classify_key_def key_b_def isalpha_def char_isalpha_def)

section \<open>Pointer buttons\<close>

lemma handle_button_release: "is_button_release e \<Longrightarrow> handle e s = s"
  by (cases e) (simp_all add: on_mouse_click_def)

lemma run_without_releases: "run (filter (\<lambda>e. \<not> is_button_release e) evs) s = run evs s"
  unfolding run_def
  by (induction evs arbitrary: s) (simp_all add: handle_button_release)

text \<open>
  Claim C10. \<open>_on_mouse_click\<close> with \<open>pressed\<close> false leaves the monitor as it is and
  queues no record; leaving the button releases out of any sequence of events changes
  nothing in the final state, hence nothing in the click counts and in
  \<open>click_frequency\<close>. The \<open>click\<close> records of the queue grow by one record exactly for a
  press that reaches a running monitor (whose queue is not full).
\<close>

theorem mouse_release_not_recorded:
  "on_mouse_click t x y button False s = s
   \<and> run (filter (\<lambda>e. \<not> is_button_release e) evs) s = run evs s
   \<and> filter (\<lambda>md. md_action md = ''click'') (items (mouse_queue (on_mouse_click t x y button pressed s)))
       = filter (\<lambda>md. md_action md = ''click'') (items (mouse_queue s))
         @ (if running s \<and> pressed \<and> \<not> queue_full (mouse_queue s)
            then [MouseData t x y ''click'' (Some button) None] else [])"
  by (simp add: run_without_releases on_mouse_click_def enqueue_mouse_def put_nowait_def)

section \<open>The snapshot query\<close>

text \<open>
  Claim C5, as stated, fails: \<open>get_current_metrics\<close> reads the clock at every call, so two
  calls on the same monitor at different times differ in \<open>timestamp\<close>.
\<close>

theorem snapshot_timestamp_counterexample:
  "get_current_metrics 10 started \<noteq> get_current_metrics 11 started"
proof
  assume "get_current_metrics 10 started = get_current_metrics 11 started"
  then have "timestamp (get_current_metrics 10 started) = timestamp (get_current_metrics 11 started)"
    by simp
  then show False by (simp add: get_current_metrics_def Let_def)
qed

text \<open>
  Claim C5, amended. Two calls of \<open>get_current_metrics\<close> on the same monitor return the
  same typing metrics, mouse metrics, totals and application usage, whatever the clock
  reads at each call; \<open>timestamp\<close> is the reading of the clock at the call, and
  \<open>session_duration\<close>, \<open>time_since_last_activity\<close> and \<open>is_inactive\<close> are computed from
  that reading.
\<close>

theorem snapshot_repeatable_fields:
  "typing_metrics (get_current_metrics t1 s) = typing_metrics (get_current_metrics t2 s)
   \<and> mouse_metrics (get_current_metrics t1 s) = mouse_metrics (get_current_metrics t2 s)
   \<and> total_keystrokes (get_current_metrics t1 s) = total_keystrokes (get_current_metrics t2 s)
   \<and> total_mouse_events (get_current_metrics t1 s) = total_mouse_events (get_current_metrics t2 s)
   \<and> snapshot_app_usage (get_current_metrics t1 s) = snapshot_app_usage (get_current_metrics t2 s)
   \<and> timestamp (get_current_metrics t1 s) = t1
   \<and> session_duration (get_current_metrics t1 s) = py_round (t1 - cm_session_start s) 2
   \<and> time_since_last_activity (get_current_metrics t1 s) = py_round (t1 - cm_last_activity s) 2
   \<and> is_inactive (get_current_metrics t1 s) = (t1 - cm_last_activity s > of_int (inactivity_threshold s))"
  by (simp add: get_current_metrics_def Let_def)

section \<open>Typing bursts\<close>

text \<open>
  The loop and the specification differ by the run that is still open when the loop
  ends: the loop counts every maximal run of three or more fast intervals that a slow
  interval closes, and the specification counts the open one as well.
\<close>

lemma is_fast_threshold: "is_fast v = (v < burst_threshold)"
  by (simp add: is_fast_def burst_threshold_def)

lemma burst_loop_fast_prefix:
  "\<forall>v \<in> set fs. is_fast v \<Longrightarrow> burst_loop (fs @ rest) (b, c) = burst_loop rest (b, c + length fs)"
  by (induction fs arbitrary: c) (simp_all add: is_fast_threshold)

lemma takeWhile_rev_all: "\<forall>a \<in> set xs. P a \<Longrightarrow> takeWhile P (rev xs) = rev xs"
  by (simp add: takeWhile_eq_all_conv)

lemma takeWhile_rev_snoc:
  "\<forall>a \<in> set xs. P a \<Longrightarrow> \<not> P v \<Longrightarrow> takeWhile P (rev xs @ [v]) = rev xs"
proof -
  assume a: "\<forall>a \<in> set xs. P a" and b: "\<not> P v"
  have "takeWhile P (rev xs @ [v]) = rev xs @ takeWhile P [v]"
    using a by (intro takeWhile_append2) simp
  then show ?thesis using b by simp
qed

lemma burst_loop_open_run:
  "snd (burst_loop xs (b, c)) =
     (if \<forall>v \<in> set xs. is_fast v then c + length xs else length (takeWhile is_fast (rev xs)))"
proof (induction xs arbitrary: b c)
  case Nil
  then show ?case by simp
next
  case (Cons v xs)
  show ?case
  proof (cases "is_fast v")
    case True
    then have "burst_loop (v # xs) (b, c) = burst_loop xs (b, c + 1)"
      by (simp add: is_fast_threshold)
    then show ?thesis using True Cons.IH [of b "c + 1"]
      by (auto simp: takeWhile_append1)
  next
    case False
    then have "burst_loop (v # xs) (b, c) = burst_loop xs (if c \<ge> 3 then b + 1 else b, 0)"
      by (simp add: is_fast_threshold)
    then show ?thesis using False Cons.IH [of "if c \<ge> 3 then b + 1 else b" 0]
      by (auto simp: takeWhile_append1 takeWhile_rev_snoc)
  qed
qed

lemma burst_loop_spec:
  "fst (burst_loop xs (b, 0)) + (if 3 \<le> snd (burst_loop xs (b, 0)) then 1 else 0)
     = b + spec_typing_bursts xs"
proof (induction xs arbitrary: b rule: fast_runs.induct)
  case 1
  then show ?case by (simp add: spec_typing_bursts_def)
next
  case (2 v vs)
  show ?case
  proof (cases "is_fast v")
    case False
    then have "burst_loop (v # vs) (b, 0) = burst_loop vs (b, 0)"
      by (simp add: is_fast_threshold)
    moreover have "spec_typing_bursts (v # vs) = spec_typing_bursts vs"
      using False by (simp add: spec_typing_bursts_def)
    ultimately show ?thesis using "2.IH"(2) [OF False, of b] by simp
  next
    case True
    define fs where "fs = takeWhile is_fast (v # vs)"
    define rest where "rest = dropWhile is_fast (v # vs)"
    have split: "v # vs = fs @ rest" by (simp add: fs_def rest_def)
    have fast: "\<forall>u \<in> set fs. is_fast u" unfolding fs_def by (auto dest: set_takeWhileD)
    have loop: "burst_loop (v # vs) (b, 0) = burst_loop rest (b, length fs)"
      unfolding split using burst_loop_fast_prefix [OF fast, of rest b 0] by simp
    have spec: "spec_typing_bursts (v # vs) = (if 3 \<le> length fs then 1 else 0) + spec_typing_bursts rest"
      using True by (simp add: spec_typing_bursts_def fs_def rest_def)
    show ?thesis
    proof (cases rest)
      case Nil
      then show ?thesis using loop spec by (simp add: spec_typing_bursts_def)
    next
      case (Cons y ys)
      have slow: "\<not> is_fast y"
        using hd_dropWhile [of is_fast "v # vs"] Cons by (simp add: rest_def)
      define b' where "b' = (if 3 \<le> length fs then b + 1 else b)"
      have "burst_loop rest (b, length fs) = burst_loop ys (b', 0)"
        using slow Cons by (simp add: is_fast_threshold b'_def)
      moreover have "burst_loop rest (b', 0) = burst_loop ys (b', 0)"
        using slow Cons by (simp add: is_fast_threshold)
      ultimately have "burst_loop (v # vs) (b, 0) = burst_loop rest (b', 0)"
        using loop by simp
      then show ?thesis
        using "2.IH"(1) [OF True, of b', folded rest_def] spec by (simp add: b'_def)
    qed
  qed
qed

lemma typing_bursts_misses_open_run:
  "typing_bursts intervals + (if 3 \<le> length (takeWhile is_fast (rev intervals)) then 1 else 0)
     = spec_typing_bursts intervals"
proof -
  have "snd (burst_loop intervals (0, 0)) = length (takeWhile is_fast (rev intervals))"
    using burst_loop_open_run [of intervals 0 0] by (auto simp: takeWhile_rev_all)
  then show ?thesis
    using burst_loop_spec [of intervals 0] by (simp add: typing_bursts_def)
qed

lemma four_presses_drained:
  "keystroke_data (clean_old_data 2 (process_queued_data 2
      (run [KeyPress 1.00 key_a, KeyPress 1.05 key_b, KeyPress 1.10 key_a, KeyPress 1.15 key_b] started)))
     = [KeystrokeData 1.00 ''letter'' False None, KeystrokeData 1.05 ''letter'' False None,
        KeystrokeData 1.10 ''letter'' False None, KeystrokeData 1.15 ''letter'' False None]
   \<and> analysis_window (clean_old_data 2 (process_queued_data 2
      (run [KeyPress 1.00 key_a, KeyPress 1.05 key_b, KeyPress 1.10 key_a, KeyPress 1.15 key_b] started)))
     = 60"
  by (simp add: run_def started_eq init_def Queue_new_def on_key_press_def classify_key_a
        classify_key_b put_nowait_def queue_full_def process_queued_data_eq clean_old_data_def
        deque_append_def data_maxlen_def Let_def)

lemma four_fast_buffer_typing:
  assumes "analysis_window s = 60"
    and "keystroke_data s =
      [KeystrokeData 1.00 ''letter'' False None, KeystrokeData 1.05 ''letter'' False None,
       KeystrokeData 1.10 ''letter'' False None, KeystrokeData 1.15 ''letter'' False None]"
  shows "calculate_typing_metrics 2 s = Inr (TypingMetrics 48 48 100 100 0 100 0.05 0 0 0)"
  using assms
  by (simp add: calculate_typing_metrics_def Let_def statistics_mean_def statistics_variance_def
      typing_bursts_def burst_threshold_def py_round_def round_half_even_def)

lemma four_fast_round:
  "cm_typing four_fast = TypingMetrics 48 48 100 100 0 100 0.05 0 0 0
   \<and> keystroke_data four_fast =
       [KeystrokeData 1.00 ''letter'' False None, KeystrokeData 1.05 ''letter'' False None,
        KeystrokeData 1.10 ''letter'' False None, KeystrokeData 1.15 ''letter'' False None]"
proof -
  define pre where "pre =
    run [KeyPress 1.00 key_a, KeyPress 1.05 key_b, KeyPress 1.10 key_a, KeyPress 1.15 key_b] started"
  define s2 where "s2 = clean_old_data 2 (process_queued_data 2 pre)"
  have ff: "four_fast = analysis_round 2 2 2 2 pre"
    by (simp add: four_fast_def pre_def run_def)
  have d: "keystroke_data s2 =
       [KeystrokeData 1.00 ''letter'' False None, KeystrokeData 1.05 ''letter'' False None,
        KeystrokeData 1.10 ''letter'' False None, KeystrokeData 1.15 ''letter'' False None]"
    and w: "analysis_window s2 = 60"
    using four_presses_drained unfolding s2_def pre_def by blast+
  have "analysis_window pre \<noteq> 0"
    using w by (simp add: s2_def clean_old_data_def process_queued_data_eq Let_def)
  then obtain tm mm where r: "analysis_round 2 2 2 2 pre = s2\<lparr>cm_typing := tm, cm_mouse := mm\<rparr>"
    and t: "calculate_typing_metrics 2 s2 = Inr tm"
    unfolding s2_def by (rule analysis_round_returned)
  have "calculate_typing_metrics 2 s2 = Inr (TypingMetrics 48 48 100 100 0 100 0.05 0 0 0)"
    using w d by (rule four_fast_buffer_typing)
  then have "tm = TypingMetrics 48 48 100 100 0 100 0.05 0 0 0" using t by simp
  then show ?thesis unfolding ff r using d by simp
qed

text \<open>
  Claim C4 on four key presses 0.05 seconds apart, followed by a round of the analysis
  loop: the three intervals form one maximal run of three fast intervals, which reaches
  the last interval. The specification counts one burst; the loop of
  \<open>_calculate_typing_metrics\<close> counts a run only when a slow interval follows it, and the
  round publishes \<open>typing_bursts = 0\<close>.
\<close>

theorem trailing_burst_not_counted:
  "cm_typing four_fast = TypingMetrics 48 48 100 100 0 100 0.05 0 0 0
   \<and> tm_typing_bursts (cm_typing four_fast) = 0
   \<and> spec_typing_bursts (keystroke_intervals (keystroke_data four_fast)) = 1"
  by (simp add: four_fast_round spec_typing_bursts_def is_fast_def)

section \<open>Press durations\<close>

text \<open>
  Claim C2 on a press of \<open>a\<close> at time 1, a round of the analysis loop at time 2 and the
  release of \<open>a\<close> at time 3. Before the release the press of \<open>a\<close> is pending and its
  record is the last one of the buffer; the claim asks for \<open>press_duration = 2\<close> on that
  record, and \<open>_on_key_release\<close> leaves it unset, because it compares the record's
  timestamp with the entry it has just deleted.
\<close>

theorem release_leaves_duration_unset:
  "key_press_times (run [KeyPress 1 key_a, Round 2 2 2 2] started) (key_str key_a) = Some 1
   \<and> keystroke_data (run [KeyPress 1 key_a, Round 2 2 2 2] started)
       = [KeystrokeData 1 ''letter'' False None]
   \<and> keystroke_data (run [KeyPress 1 key_a, Round 2 2 2 2, KeyRelease 3 key_a] started)
       = [KeystrokeData 1 ''letter'' False None]"
  by (simp add: run_def started_eq init_def classify_key_a
      on_key_press_def put_nowait_def queue_full_def
      Queue_new_def analysis_round_def process_queued_data_eq
      deque_append_def data_maxlen_def clean_old_data_def update_typing_def update_mouse_def
      calculate_typing_metrics_def calculate_mouse_metrics_def on_key_release_def dict_get_def Let_def)

section \<open>The ingestion queues\<close>

lemma handle_maxsize:
  "maxsize (keystroke_queue (handle e s)) = maxsize (keystroke_queue s)
   \<and> maxsize (mouse_queue (handle e s)) = maxsize (mouse_queue s)"
proof (cases e)
  case (Round t1 t2 t3 t4)
  obtain tm mm where "analysis_round t1 t2 t3 t4 s =
      (clean_old_data t2 (process_queued_data t1 s))\<lparr>cm_typing := tm, cm_mouse := mm\<rparr>"
    using analysis_round_frame by blast
  then show ?thesis using Round
    by (simp add: clean_old_data_def process_queued_data_eq Let_def)
qed (simp_all add: start_monitoring_def stop_monitoring_def on_key_press_def on_key_release_def
      on_mouse_move_def on_mouse_click_def on_mouse_scroll_def enqueue_mouse_def put_nowait_def
      set_last_press_duration_def Let_def split: option.splits prod.splits)

lemma run_maxsize:
  "maxsize (keystroke_queue (run evs s)) = maxsize (keystroke_queue s)
   \<and> maxsize (mouse_queue (run evs s)) = maxsize (mouse_queue s)"
  unfolding run_def
  by (induction evs arbitrary: s) (simp_all add: handle_maxsize)

lemma init_maxsize:
  "maxsize (keystroke_queue (init w th r t1 t2 t3)) = 0 \<and> maxsize (mouse_queue (init w th r t1 t2 t3)) = 0"
  by (simp add: init_def Queue_new_def)

text \<open>
  Claim C3, amended. The two queues are created by \<open>queue.Queue()\<close>, without a capacity:
  in every state that the monitor reaches from \<open>__init__\<close> neither queue is full, and on
  a running monitor every handler appends its record to its queue, which grows by one.
\<close>

theorem enqueue_never_full:
  assumes "s = run evs (init w th r t1 t2 t3)" and "running s"
  shows "\<not> queue_full (keystroke_queue s) \<and> \<not> queue_full (mouse_queue s)
       \<and> items (keystroke_queue (on_key_press t k s))
           = items (keystroke_queue s) @ [KeystrokeData t (fst (classify_key k)) (snd (classify_key k)) None]
       \<and> items (mouse_queue (on_mouse_move t x y s))
           = items (mouse_queue s) @ [MouseData t x y ''move'' None None]
       \<and> items (mouse_queue (on_mouse_click t x y button True s))
           = items (mouse_queue s) @ [MouseData t x y ''click'' (Some button) None]
       \<and> length (items (mouse_queue (on_mouse_scroll t x y dx dy s)))
           = length (items (mouse_queue s)) + 1"
proof -
  have "maxsize (keystroke_queue s) = 0" "maxsize (mouse_queue s) = 0"
    using assms(1) run_maxsize [of evs "init w th r t1 t2 t3"] init_maxsize [of w th r t1 t2 t3]
    by simp_all
  then have nf: "\<not> queue_full (keystroke_queue s)" "\<not> queue_full (mouse_queue s)"
    by (simp_all add: queue_full_def)
  show ?thesis
    using nf assms(2)
    by (simp add: on_key_press_def on_mouse_move_def on_mouse_click_def on_mouse_scroll_def
        enqueue_mouse_def put_nowait_def Let_def split: prod.splits)
qed

theorem enqueue_never_full_witness:
  "pressing = run [Start, KeyPress 1 key_a] (init 60 30 3600 0 0 0) \<and> running pressing
   \<and> items (keystroke_queue (on_key_press 2 key_shift pressing))
       = [KeystrokeData 1 ''letter'' False None, KeystrokeData 2 ''modifier'' True None]"
proof -
  have h1: "pressing = run [Start, KeyPress 1 key_a] (init 60 30 3600 0 0 0)"
    by (simp add: pressing_def)
  have h2: "running pressing"
    by (simp add: pressing_def run_def start_monitoring_def init_def on_key_press_def
        put_nowait_def queue_full_def Queue_new_def Let_def split: prod.splits)
  have a: "classify_key key_a = (''letter'', False)"
    by (simp add: classify_key_def key_a_def isalpha_def char_isalpha_def)
  have b: "classify_key key_shift = (''modifier'', True)"
    by (simp add: classify_key_def key_shift_def lower_def char_lower_def modifiers_def)
  have c: "items (keystroke_queue pressing) = [KeystrokeData 1 ''letter'' False None]"
    by (simp add: pressing_def run_def start_monitoring_def init_def on_key_press_def a
        put_nowait_def queue_full_def Queue_new_def)
  from enqueue_never_full [OF h1 h2, of 2 key_shift] h1 h2 b c show ?thesis by simp
qed

lemma run_presses:
  assumes "running s" and "maxsize (keystroke_queue s) = 0"
  shows "qsize (keystroke_queue (run (replicate n (KeyPress t k)) s)) = qsize (keystroke_queue s) + n"
  using assms
proof (induction n arbitrary: s)
  case 0
  then show ?case by (simp add: run_def)
next
  case (Suc n)
  define s' where "s' = on_key_press t k s"
  have r: "running s'" and m: "maxsize (keystroke_queue s') = 0"
    and q: "qsize (keystroke_queue s') = qsize (keystroke_queue s) + 1"
    using Suc.prems
    by (simp_all add: s'_def on_key_press_def put_nowait_def queue_full_def qsize_def split: prod.splits)
  have "run (replicate (Suc n) (KeyPress t k)) s = run (replicate n (KeyPress t k)) s'"
    by (simp add: run_def s'_def)
  then show ?case using Suc.IH [OF r m] q by simp
qed

text \<open>
  Claim C3, as stated, fails: no number bounds the length of the keystroke queue, since
  \<open>n\<close> key presses on the started monitor make it \<open>n\<close> long.
\<close>

theorem queue_bound_counterexample:
  "\<not> (\<exists>cap. \<forall>evs. qsize (keystroke_queue (run evs started)) \<le> cap)"
proof
  assume "\<exists>cap. \<forall>evs. qsize (keystroke_queue (run evs started)) \<le> cap"
  then obtain cap where cap: "\<forall>evs. qsize (keystroke_queue (run evs started)) \<le> cap" by blast
  have "running started" "maxsize (keystroke_queue started) = 0"
    by (simp_all add: started_def start_monitoring_def init_def Queue_new_def)
  from run_presses [OF this, of "Suc cap" 1 key_a]
  have "qsize (keystroke_queue (run (replicate (Suc cap) (KeyPress 1 key_a)) started)) = qsize (keystroke_queue started) + Suc cap" .
  with cap show False
    by (metis Suc_n_not_le_n add_leD2)
qed

section \<open>Key content\<close>

lemma forget_keys_eqD:
  "forget_keys s1 = forget_keys s2 \<Longrightarrow> s2 = s1\<lparr>key_press_times := key_press_times s2\<rparr>"
  by (cases s1; cases s2) (simp add: forget_keys_def)

lemma forget_keys_update [simp]: "forget_keys (s\<lparr>key_press_times := m\<rparr>) = forget_keys s"
  by (simp add: forget_keys_def)

lemma calculate_typing_metrics_keys [simp]:
  "calculate_typing_metrics t (s\<lparr>key_press_times := m\<rparr>) = calculate_typing_metrics t s"
  by (rule calculate_typing_metrics_cong) simp_all

lemma calculate_mouse_metrics_keys [simp]:
  "calculate_mouse_metrics t (s\<lparr>key_press_times := m\<rparr>) = calculate_mouse_metrics t s"
  by (rule calculate_mouse_metrics_cong) simp_all

lemma process_clean_keys:
  "clean_old_data t2 (process_queued_data t1 (s\<lparr>key_press_times := m\<rparr>))
     = (clean_old_data t2 (process_queued_data t1 s))\<lparr>key_press_times := m\<rparr>"
  by (simp add: process_queued_data_eq clean_old_data_def Let_def)

lemma update_typing_keys:
  "update_typing t (s\<lparr>key_press_times := m\<rparr>)
     = (case update_typing t s of Inl e \<Rightarrow> Inl e | Inr s' \<Rightarrow> Inr (s'\<lparr>key_press_times := m\<rparr>))"
  by (cases "calculate_typing_metrics t s") (simp_all add: update_typing_def)

lemma update_mouse_keys:
  "update_mouse t (s\<lparr>key_press_times := m\<rparr>)
     = (case update_mouse t s of Inl e \<Rightarrow> Inl e | Inr s' \<Rightarrow> Inr (s'\<lparr>key_press_times := m\<rparr>))"
  by (cases "calculate_mouse_metrics t s") (simp_all add: update_mouse_def)

lemma analysis_round_keys:
  "analysis_round t1 t2 t3 t4 (s\<lparr>key_press_times := m\<rparr>)
     = (analysis_round t1 t2 t3 t4 s)\<lparr>key_press_times := m\<rparr>"
proof -
  define s2 where "s2 = clean_old_data t2 (process_queued_data t1 s)"
  have l: "analysis_round t1 t2 t3 t4 (s\<lparr>key_press_times := m\<rparr>) =
        (case update_typing t3 (s2\<lparr>key_press_times := m\<rparr>) of
           Inl e \<Rightarrow> s2\<lparr>key_press_times := m\<rparr>
         | Inr s3 \<Rightarrow> (case update_mouse t4 s3 of Inl e \<Rightarrow> s3 | Inr s4 \<Rightarrow> s4))"
    unfolding analysis_round_def Let_def process_clean_keys s2_def by (rule refl)
  have r: "analysis_round t1 t2 t3 t4 s =
        (case update_typing t3 s2 of
           Inl e \<Rightarrow> s2
         | Inr s3 \<Rightarrow> (case update_mouse t4 s3 of Inl e \<Rightarrow> s3 | Inr s4 \<Rightarrow> s4))"
    unfolding analysis_round_def Let_def s2_def by (rule refl)
  show ?thesis
    unfolding l r update_typing_keys
    by (cases "update_typing t3 s2")
       (simp_all add: update_mouse_keys split: sum.splits)
qed

lemma on_key_release_data:
  assumes nz: "list_all (\<lambda>ks. ks_timestamp ks \<noteq> 0) (keystroke_data s)"
  shows "\<exists>m. on_key_release t k s = s\<lparr>key_press_times := m\<rparr>"
proof (cases "running s \<and> key_press_times s (key_str k) \<noteq> None")
  case False
  then have "on_key_release t k s = s\<lparr>key_press_times := key_press_times s\<rparr>"
    by (auto simp: on_key_release_def Let_def split: option.splits)
  then show ?thesis by blast
next
  case True
  have "keystroke_data s \<noteq> [] \<Longrightarrow> ks_timestamp (last (keystroke_data s)) \<noteq> 0"
    using nz by (simp add: list_all_iff)
  then have "on_key_release t k s = s\<lparr>key_press_times := (key_press_times s)(key_str k := None)\<rparr>"
    using True by (auto simp: on_key_release_def dict_get_def Let_def split: option.splits)
  then show ?thesis by blast
qed

lemma on_key_press_class:
  assumes "classify_key k = classify_key k'"
  shows "forget_keys (on_key_press t k (s\<lparr>key_press_times := m\<rparr>)) = forget_keys (on_key_press t k' s)"
  using assms
  by (simp add: on_key_press_def put_nowait_def forget_keys_def Let_def split: prod.splits)

lemma same_class_cases:
  assumes "same_class e1 e2"
  obtains (same) "e1 = e2"
  | (press) t k k' where "e1 = KeyPress t k" "e2 = KeyPress t k'" "classify_key k = classify_key k'"
  | (release) t k k' where "e1 = KeyRelease t k" "e2 = KeyRelease t k'"
  using assms by (cases e1; cases e2) auto

lemma stamps_nonzero_keys [simp]:
  "stamps_nonzero (s\<lparr>key_press_times := m\<rparr>) = stamps_nonzero s"
  by (simp add: stamps_nonzero_def)

lemma handle_keys:
  assumes "stamps_nonzero s"
  shows "forget_keys (handle e (s\<lparr>key_press_times := m\<rparr>)) = forget_keys (handle e s)"
proof (cases e)
  case (KeyPress t k)
  then show ?thesis using on_key_press_class [where k = k and k' = k and t = t and s = s and m = m] by simp
next
  case (KeyRelease t k)
  have a: "list_all (\<lambda>ks. ks_timestamp ks \<noteq> 0) (keystroke_data s)"
    using assms by (simp add: stamps_nonzero_def)
  then have b: "list_all (\<lambda>ks. ks_timestamp ks \<noteq> 0) (keystroke_data (s\<lparr>key_press_times := m\<rparr>))"
    by simp
  from on_key_release_data [OF a, of t k] on_key_release_data [OF b, of t k]
  show ?thesis using KeyRelease by auto
next
  case (Round t1 t2 t3 t4)
  then show ?thesis by (simp add: analysis_round_keys)
qed (simp_all add: start_monitoring_def stop_monitoring_def on_mouse_move_def on_mouse_click_def
      on_mouse_scroll_def enqueue_mouse_def Let_def forget_keys_def split: sum.splits)

lemma handle_same_class:
  assumes "same_class e1 e2" and "forget_keys s1 = forget_keys s2" and "stamps_nonzero s1"
  shows "forget_keys (handle e1 s1) = forget_keys (handle e2 s2)"
proof -
  from forget_keys_eqD [OF assms(2)] obtain m where s2: "s2 = s1\<lparr>key_press_times := m\<rparr>" by blast
  show ?thesis
  using assms(1)
  proof (cases rule: same_class_cases)
    case same
    then show ?thesis using handle_keys [OF assms(3), of e2 m] s2 by simp
  next
    case (press t k k')
    then show ?thesis using on_key_press_class [where k = k' and k' = k and t = t and s = s1 and m = m] s2 by simp
  next
    case (release t k k')
    have a: "list_all (\<lambda>ks. ks_timestamp ks \<noteq> 0) (keystroke_data s1)"
      using assms(3) by (simp add: stamps_nonzero_def)
    then have b: "list_all (\<lambda>ks. ks_timestamp ks \<noteq> 0) (keystroke_data s2)"
      using s2 by simp
    from on_key_release_data [OF a, of t k] on_key_release_data [OF b, of t k']
    show ?thesis using release s2 by auto
  qed
qed

lemma list_all_deque_append:
  "list_all Q xs \<Longrightarrow> Q v \<Longrightarrow> list_all Q (deque_append n xs v)"
  by (auto simp: deque_append_def Let_def list_all_iff dest!: in_set_dropD)

lemma list_all_foldl_deque_append:
  "list_all Q xs \<Longrightarrow> list_all Q vs \<Longrightarrow> list_all Q (foldl (deque_append n) xs vs)"
  by (induction vs arbitrary: xs) (simp_all add: list_all_deque_append)

lemma list_all_dropWhile: "list_all Q xs \<Longrightarrow> list_all Q (dropWhile P xs)"
  by (auto simp: list_all_iff dest: set_dropWhileD)

lemma handle_stamps:
  assumes "press_stamp_nonzero e" and "stamps_nonzero s"
  shows "stamps_nonzero (handle e s)"
proof (cases e)
  case (KeyPress t k)
  then show ?thesis using assms
    by (simp add: stamps_nonzero_def on_key_press_def put_nowait_def Let_def split: prod.splits)
next
  case (KeyRelease t k)
  have "list_all (\<lambda>ks. ks_timestamp ks \<noteq> 0) (keystroke_data s)"
    using assms(2) by (simp add: stamps_nonzero_def)
  from on_key_release_data [OF this, of t k] show ?thesis using KeyRelease assms(2) by auto
next
  case (Round t1 t2 t3 t4)
  obtain tm mm where "analysis_round t1 t2 t3 t4 s =
      (clean_old_data t2 (process_queued_data t1 s))\<lparr>cm_typing := tm, cm_mouse := mm\<rparr>"
    using analysis_round_frame by blast
  then show ?thesis using Round assms(2)
    by (simp add: stamps_nonzero_def clean_old_data_def process_queued_data_eq Let_def
        list_all_dropWhile list_all_foldl_deque_append)
qed (use assms(2) in \<open>simp_all add: stamps_nonzero_def start_monitoring_def stop_monitoring_def
      on_mouse_move_def on_mouse_click_def on_mouse_scroll_def enqueue_mouse_def Let_def
      split: sum.splits\<close>)

lemma fold_handle_same_class:
  assumes "list_all2 same_class evs1 evs2" and "list_all press_stamp_nonzero evs1"
    and "stamps_nonzero s1" and "forget_keys s1 = forget_keys s2"
  shows "forget_keys (fold handle evs1 s1) = forget_keys (fold handle evs2 s2)"
  using assms
proof (induction evs1 evs2 arbitrary: s1 s2 rule: list_all2_induct)
  case Nil
  then show ?case by simp
next
  case (Cons e1 evs1 e2 evs2)
  have a: "forget_keys (handle e1 s1) = forget_keys (handle e2 s2)"
    using Cons.hyps(1) Cons.prems(3) Cons.prems(2) by (rule handle_same_class)
  have b: "stamps_nonzero (handle e1 s1)"
    using Cons.prems(1) Cons.prems(2) by (simp add: handle_stamps)
  have c: "list_all press_stamp_nonzero evs1" using Cons.prems(1) by simp
  from Cons.IH [OF c b a] show ?case by simp
qed

lemma get_current_metrics_forget:
  "get_current_metrics now (forget_keys s) = get_current_metrics now s"
  by (simp add: get_current_metrics_def forget_keys_def)

text \<open>
  Claim C1, amended. Two runs of the monitor whose events agree in kind, clock reading and
  classification of the key (and whose key presses do not happen at the clock reading
  zero) end in states that agree in every field except the dictionary of pending
  presses \<open>key_press_times\<close>: the queues, the buffered records, the metrics, the
  counters and the snapshot that \<open>get_current_metrics\<close> returns are identical. The
  dictionary \<open>key_press_times\<close> is keyed by \<open>str(key)\<close> and is not covered.
\<close>

theorem classification_decides_all_but_pending:
  assumes "list_all2 same_class evs1 evs2" and "list_all press_stamp_nonzero evs1"
    and "stamps_nonzero s"
  shows "forget_keys (run evs1 s) = forget_keys (run evs2 s)
       \<and> get_current_metrics now (run evs1 s) = get_current_metrics now (run evs2 s)"
proof -
  have a: "forget_keys (run evs1 s) = forget_keys (run evs2 s)"
    unfolding run_def using assms by (intro fold_handle_same_class) simp_all
  have "get_current_metrics now (run evs1 s) = get_current_metrics now (forget_keys (run evs1 s))"
    by (rule get_current_metrics_forget [symmetric])
  also have "\<dots> = get_current_metrics now (forget_keys (run evs2 s))"
    by (simp only: a)
  also have "\<dots> = get_current_metrics now (run evs2 s)"
    by (rule get_current_metrics_forget)
  finally show ?thesis using a by blast
qed

theorem classification_decides_all_but_pending_witness:
  "list_all2 same_class [KeyPress 1 key_a, KeyRelease 2 key_a, Round 3 3 3 3]
                        [KeyPress 1 key_b, KeyRelease 2 key_a, Round 3 3 3 3]
   \<and> list_all press_stamp_nonzero [KeyPress 1 key_a, KeyRelease 2 key_a, Round 3 3 3 3]
   \<and> stamps_nonzero started
   \<and> forget_keys (run [KeyPress 1 key_a, KeyRelease 2 key_a, Round 3 3 3 3] started)
       = forget_keys (run [KeyPress 1 key_b, KeyRelease 2 key_a, Round 3 3 3 3] started)
   \<and> get_current_metrics 4 (run [KeyPress 1 key_a, KeyRelease 2 key_a, Round 3 3 3 3] started)
       = get_current_metrics 4 (run [KeyPress 1 key_b, KeyRelease 2 key_a, Round 3 3 3 3] started)"
proof -
  have h1: "list_all2 same_class [KeyPress 1 key_a, KeyRelease 2 key_a, Round 3 3 3 3]
                        [KeyPress 1 key_b, KeyRelease 2 key_a, Round 3 3 3 3]"
    by (simp add: classify_key_a classify_key_b)
  have h2: "list_all press_stamp_nonzero [KeyPress 1 key_a, KeyRelease 2 key_a, Round 3 3 3 3]"
    by simp
  have h3: "stamps_nonzero started"
    by (simp add: stamps_nonzero_def started_def start_monitoring_def init_def Queue_new_def)
  from classification_decides_all_but_pending [OF h1 h2 h3, of 4] h1 h2 h3 show ?thesis
    by blast
qed

text \<open>
  Claim C1, as stated, fails: a press of \<open>a\<close> and a press of \<open>b\<close> have the same
  classification, and leave the monitor in different states, since \<open>_on_key_press\<close>
  stores the press time under \<open>str(key)\<close>.
\<close>

theorem key_identity_retained_counterexample:
  "same_class (KeyPress 1 key_a) (KeyPress 1 key_b)
   \<and> run [KeyPress 1 key_a] started \<noteq> run [KeyPress 1 key_b] started"
proof
  show "same_class (KeyPress 1 key_a) (KeyPress 1 key_b)"
    by (simp add: classify_key_a classify_key_b)
  have a: "key_press_times (run [KeyPress 1 key_a] started) (key_str key_a) = Some 1"
    by (simp add: run_def on_key_press_def started_def start_monitoring_def init_def
        put_nowait_def Let_def split: prod.splits sum.splits)
  have b: "key_press_times (run [KeyPress 1 key_b] started) (key_str key_a) = None"
    by (simp add: run_def on_key_press_def started_def start_monitoring_def init_def
        put_nowait_def Let_def key_a_def key_b_def split: prod.splits sum.splits)
  show "run [KeyPress 1 key_a] started \<noteq> run [KeyPress 1 key_b] started"
    using a b by auto
qed

section \<open>Snapshots and the analysis loop\<close>

lemma after_first_round_eq:
  "after_first_round = started
     \<lparr>mouse_data := [MouseData 1 0 0 ''click'' (Some ''Button.left'') None],
      cm_total_mouse_events := 1,
      cm_last_activity := 2,
      cm_typing := TypingMetrics 0 0 0 0 0 50 0 0 0 0,
      cm_mouse := MouseMetrics 0 0 1 0 100 0 100\<rparr>"
  by (simp add: after_first_round_def run_def started_eq init_def Queue_new_def
      on_mouse_click_def enqueue_mouse_def put_nowait_def queue_full_def
      analysis_round_def process_queued_data_eq clean_old_data_def deque_append_def data_maxlen_def
      update_typing_def update_mouse_def calculate_typing_metrics_def calculate_mouse_metrics_def
      py_round_def round_half_even_def Let_def)

lemma before_second_round_eq:
  "before_second_round = after_first_round
     \<lparr>key_press_times := [key_str key_a \<mapsto> 3, key_str key_b \<mapsto> 3.5],
      keystroke_queue := \<lparr>maxsize = 0, items =
        [KeystrokeData 3 ''letter'' False None, KeystrokeData 3.5 ''letter'' False None]\<rparr>,
      mouse_queue := \<lparr>maxsize = 0, items = [MouseData 3.6 0 0 ''click'' (Some ''Button.left'') None]\<rparr>\<rparr>"
  by (simp add: before_second_round_def run_def after_first_round_eq started_eq init_def Queue_new_def
      on_key_press_def classify_key_a classify_key_b
      on_mouse_click_def enqueue_mouse_def put_nowait_def queue_full_def)

lemma second_round_buffers:
  "clean_old_data 4 (process_queued_data 4 before_second_round) = before_second_round
     \<lparr>keystroke_queue := \<lparr>maxsize = 0, items = []\<rparr>,
      mouse_queue := \<lparr>maxsize = 0, items = []\<rparr>,
      keystroke_data := [KeystrokeData 3 ''letter'' False None, KeystrokeData 3.5 ''letter'' False None],
      mouse_data := [MouseData 1 0 0 ''click'' (Some ''Button.left'') None,
                     MouseData 3.6 0 0 ''click'' (Some ''Button.left'') None],
      cm_total_keystrokes := 2,
      cm_total_mouse_events := 2,
      cm_last_activity := 4\<rparr>"
  by (simp add: before_second_round_eq after_first_round_eq started_eq init_def
      process_queued_data_eq clean_old_data_def deque_append_def data_maxlen_def Let_def)

lemma second_round_typing:
  "calculate_typing_metrics 4 (clean_old_data 4 (process_queued_data 4 before_second_round))
     = Inr (TypingMetrics 24 24 100 100 13.33 100 0.5 0 0 0)"
  unfolding second_round_buffers
  by (simp add: before_second_round_eq after_first_round_eq started_eq init_def
      calculate_typing_metrics_def statistics_mean_def typing_bursts_def burst_threshold_def
      py_round_def round_half_even_def Let_def)

lemma second_round_mouse:
  "calculate_mouse_metrics 4
     ((clean_old_data 4 (process_queued_data 4 before_second_round))\<lparr>cm_typing := tm\<rparr>)
     = Inr (MouseMetrics 0 0 2 0 100 0 100)"
  unfolding second_round_buffers
  by (simp add: before_second_round_eq after_first_round_eq started_eq init_def
      calculate_mouse_metrics_def py_round_def round_half_even_def Let_def)

lemma amid_second_round_eq:
  "amid_second_round = (clean_old_data 4 (process_queued_data 4 before_second_round))
     \<lparr>cm_typing := TypingMetrics 24 24 100 100 13.33 100 0.5 0 0 0\<rparr>"
  by (simp add: amid_second_round_def round_states_def Let_def update_typing_def update_mouse_def
      second_round_typing second_round_mouse)

lemma after_second_round_eq:
  "after_second_round = (clean_old_data 4 (process_queued_data 4 before_second_round))
     \<lparr>cm_typing := TypingMetrics 24 24 100 100 13.33 100 0.5 0 0 0,
      cm_mouse := MouseMetrics 0 0 2 0 100 0 100\<rparr>"
  by (simp add: after_second_round_def analysis_round_def Let_def update_typing_def update_mouse_def
      second_round_typing second_round_mouse)

text \<open>
  Claim C6, as stated, fails. The loop assigns \<open>current_metrics['typing']\<close> and
  \<open>current_metrics['mouse']\<close> by two statements and takes no lock, and
  \<open>get_current_metrics\<close> takes none either. A call that falls between the two
  assignments of the second round returns the typing metrics of the second round with
  the mouse metrics of the first, and both metrics differ between the rounds.
\<close>

theorem snapshot_amid_round_counterexample:
  "amid_second_round \<in> set (round_states 4 4 4 4 before_second_round)
   \<and> typing_metrics (get_current_metrics 4 amid_second_round) = cm_typing after_second_round
   \<and> mouse_metrics (get_current_metrics 4 amid_second_round) = cm_mouse after_first_round
   \<and> cm_typing after_second_round \<noteq> cm_typing after_first_round
   \<and> cm_mouse after_second_round \<noteq> cm_mouse after_first_round"
proof -
  have a: "amid_second_round \<in> set (round_states 4 4 4 4 before_second_round)"
    by (simp add: amid_second_round_def round_states_def Let_def update_typing_def update_mouse_def
      second_round_typing second_round_mouse)
  have b: "cm_typing amid_second_round = TypingMetrics 24 24 100 100 13.33 100 0.5 0 0 0"
    by (simp add: amid_second_round_eq)
  have c: "cm_mouse amid_second_round = MouseMetrics 0 0 1 0 100 0 100"
    unfolding amid_second_round_eq second_round_buffers
    by (simp add: before_second_round_eq after_first_round_eq)
  have d: "cm_typing after_second_round = TypingMetrics 24 24 100 100 13.33 100 0.5 0 0 0"
    and e: "cm_mouse after_second_round = MouseMetrics 0 0 2 0 100 0 100"
    by (simp_all add: after_second_round_eq)
  have f: "cm_typing after_first_round = TypingMetrics 0 0 0 0 0 50 0 0 0 0"
    and g: "cm_mouse after_first_round = MouseMetrics 0 0 1 0 100 0 100"
    by (simp_all add: after_first_round_eq)
  show ?thesis
    using a by (simp add: get_current_metrics_def Let_def b c d e f g)
qed

text \<open>
  Claim C6, amended. A call of \<open>get_current_metrics\<close> that finds the monitor as a whole
  round of the analysis loop has left it (a round that raised nothing, which holds when
  \<open>analysis_window\<close> is not zero) returns typing metrics and mouse metrics that are both
  the metrics of the buffers this round has left, and totals that count every record
  this round has drained.
\<close>

theorem snapshot_between_rounds:
  assumes "analysis_window s \<noteq> 0"
  shows "calculate_typing_metrics t3 (analysis_round t1 t2 t3 t4 s)
           = Inr (typing_metrics (get_current_metrics now (analysis_round t1 t2 t3 t4 s)))
       \<and> calculate_mouse_metrics t4 (analysis_round t1 t2 t3 t4 s)
           = Inr (mouse_metrics (get_current_metrics now (analysis_round t1 t2 t3 t4 s)))
       \<and> total_keystrokes (get_current_metrics now (analysis_round t1 t2 t3 t4 s))
           = cm_total_keystrokes s + qsize (keystroke_queue s)
       \<and> total_mouse_events (get_current_metrics now (analysis_round t1 t2 t3 t4 s))
           = cm_total_mouse_events s + qsize (mouse_queue s)
       \<and> analysis_round t1 t2 t3 t4 s = last (round_states t1 t2 t3 t4 s)"
proof -
  define s2 where "s2 = clean_old_data t2 (process_queued_data t1 s)"
  obtain tm mm where r: "analysis_round t1 t2 t3 t4 s = s2\<lparr>cm_typing := tm, cm_mouse := mm\<rparr>"
    and tm: "calculate_typing_metrics t3 s2 = Inr tm"
    and mm: "calculate_mouse_metrics t4 s2 = Inr mm"
    unfolding s2_def using assms by (rule analysis_round_returned)
  have a: "calculate_typing_metrics t3 (s2\<lparr>cm_typing := tm, cm_mouse := mm\<rparr>) = Inr tm"
    unfolding tm [symmetric] by (rule calculate_typing_metrics_cong) simp_all
  have b: "calculate_mouse_metrics t4 (s2\<lparr>cm_typing := tm, cm_mouse := mm\<rparr>) = Inr mm"
    unfolding mm [symmetric] by (rule calculate_mouse_metrics_cong) simp_all
  have c: "cm_total_keystrokes s2 = cm_total_keystrokes s + qsize (keystroke_queue s)"
    "cm_total_mouse_events s2 = cm_total_mouse_events s + qsize (mouse_queue s)"
    by (simp_all add: s2_def clean_old_data_def process_queued_data_eq Let_def qsize_def)
  show ?thesis
    unfolding last_round_states unfolding r
    using a b c by (simp add: get_current_metrics_def Let_def)
qed

theorem snapshot_between_rounds_witness:
  "analysis_window before_second_round \<noteq> 0
   \<and> calculate_typing_metrics 4 after_second_round
        = Inr (typing_metrics (get_current_metrics 5 after_second_round))
   \<and> calculate_mouse_metrics 4 after_second_round
        = Inr (mouse_metrics (get_current_metrics 5 after_second_round))
   \<and> total_keystrokes (get_current_metrics 5 after_second_round) = 2
   \<and> total_mouse_events (get_current_metrics 5 after_second_round) = 2"
proof -
  have h: "analysis_window before_second_round \<noteq> 0"
    by (simp add: before_second_round_eq after_first_round_eq started_eq init_def)
  have c: "cm_total_keystrokes before_second_round + qsize (keystroke_queue before_second_round) = 2"
    "cm_total_mouse_events before_second_round + qsize (mouse_queue before_second_round) = 2"
    by (simp_all add: before_second_round_eq after_first_round_eq started_eq init_def qsize_def)
  have t: "calculate_typing_metrics 4 (analysis_round 4 4 4 4 before_second_round)
           = Inr (typing_metrics (get_current_metrics 5 (analysis_round 4 4 4 4 before_second_round)))
       \<and> calculate_mouse_metrics 4 (analysis_round 4 4 4 4 before_second_round)
           = Inr (mouse_metrics (get_current_metrics 5 (analysis_round 4 4 4 4 before_second_round)))
       \<and> total_keystrokes (get_current_metrics 5 (analysis_round 4 4 4 4 before_second_round))
           = cm_total_keystrokes before_second_round + qsize (keystroke_queue before_second_round)
       \<and> total_mouse_events (get_current_metrics 5 (analysis_round 4 4 4 4 before_second_round))
           = cm_total_mouse_events before_second_round + qsize (mouse_queue before_second_round)"
    using snapshot_between_rounds [OF h, of 4 4 4 4 5] by blast
  show ?thesis
    unfolding after_second_round_def using t h c by simp
qed

end
